theory Spec2Isabelle
  imports
    Main
    "HOL-Library.Char_ord"
    "HOL-Library.List_Lexorder"
    "HOL-Library.AList"
    "HOL-Library.Multiset"
    "HOL-Library.Product_Lexorder"
begin

section \<open>Strings\<close>

text \<open>
  A Python \<open>str\<close> is a sequence of code points. A HOL \<open>char\<close> is read here as
  the code point of the same number, so \<open>string\<close> stands for the strings over
  U+0000..U+00FF. That range holds every literal of the two scripts, the degree sign
  U+00B0 of the unit symbols included. On it the functions below are Python's:
  \<open>str.isspace\<close> and the pattern class \<open>\s\<close> hold for the twelve code points of
  \<open>is_space\<close>, the pattern class \<open>\d\<close> holds for the ten ASCII digits only, and
  \<open>str.lower\<close> maps A..Z and U+00C0..U+00DE (but U+00D7) 32 code points up.
  Strings compare as Python compares them: lexicographically by code point.
\<close>

abbreviation (input) backslash :: char where "backslash \<equiv> CHR 0x5C"
abbreviation (input) dquote :: char where "dquote \<equiv> CHR 0x22"
abbreviation (input) squote :: char where "squote \<equiv> CHR 0x27"
abbreviation (input) newline :: char where "newline \<equiv> CHR 0x0A"
abbreviation (input) degree :: char where "degree \<equiv> CHR 0xB0"

definition is_space :: "char \<Rightarrow> bool" where
  "is_space c = ((of_char c :: nat) \<in> {9, 10, 11, 12, 13, 28, 29, 30, 31, 32, 0x85, 0xA0})"

definition is_digit :: "char \<Rightarrow> bool" where
  "is_digit c = (c \<in> set ''0123456789'')"

definition is_ascii_letter :: "char \<Rightarrow> bool" where
  "is_ascii_letter c =
     (c \<in> set ''abcdefghijklmnopqrstuvwxyz'' \<or> c \<in> set ''ABCDEFGHIJKLMNOPQRSTUVWXYZ'')"

text \<open>\<open>text.strip()\<close>: leading and trailing whitespace removed.\<close>

definition py_strip :: "string \<Rightarrow> string" where
  "py_strip s = rev (dropWhile is_space (rev (dropWhile is_space s)))"

text \<open>\<open>text.lower()\<close>.\<close>

definition lower_char :: "char \<Rightarrow> char" where
  "lower_char c =
     (let n = (of_char c :: nat) in
      if (0x41 \<le> n \<and> n \<le> 0x5A) \<or> (0xC0 \<le> n \<and> n \<le> 0xDE \<and> n \<noteq> 0xD7)
      then char_of (n + 32) else c)"

definition py_lower :: "string \<Rightarrow> string" where
  "py_lower s = map lower_char s"

text \<open>\<open>text.startswith(p)\<close> and \<open>needle in text\<close>.\<close>

definition startswith :: "string \<Rightarrow> string \<Rightarrow> bool" where
  "startswith s p = (take (length p) s = p)"

fun py_contains :: "string \<Rightarrow> string \<Rightarrow> bool" where
  "py_contains needle [] = (needle = [])"
| "py_contains needle (c # cs) = (startswith (c # cs) needle \<or> py_contains needle cs)"

text \<open>\<open>sep.join(parts)\<close>.\<close>

fun py_join :: "string \<Rightarrow> string list \<Rightarrow> string" where
  "py_join sep [] = []"
| "py_join sep [x] = x"
| "py_join sep (x # y # ys) = x @ sep @ py_join sep (y # ys)"

subsection \<open>\<open>repr\<close> of strings, tuples and lists of strings\<close>

text \<open>
  The f-strings of \<open>validate_translation\<close> and of the feedback format tuples and
  lists of strings with \<open>repr\<close>. \<open>repr\<close> of a string quotes it with \<open>'\<close>, or with
  \<open>"\<close> when the string holds a \<open>'\<close> and no \<open>"\<close>; it escapes the quote it chose and
  the backslash, writes tab, newline and carriage return as \<open>\t\<close>, \<open>\n\<close>, \<open>\r\<close>
  and every other non-printable code point as \<open>\xNN\<close>.
\<close>

definition is_printable :: "char \<Rightarrow> bool" where
  "is_printable c =
     (let n = (of_char c :: nat) in \<not> (n < 0x20 \<or> (0x7F \<le> n \<and> n \<le> 0xA0) \<or> n = 0xAD))"

definition hex_digit :: "nat \<Rightarrow> char" where
  "hex_digit n = ''0123456789abcdef'' ! (n mod 16)"

definition repr_char :: "char \<Rightarrow> char \<Rightarrow> string" where
  "repr_char q c =
     (if c = q \<or> c = backslash then [backslash, c]
      else if c = CHR 0x09 then [backslash, CHR ''t'']
      else if c = newline then [backslash, CHR ''n'']
      else if c = CHR 0x0D then [backslash, CHR ''r'']
      else if \<not> is_printable c
        then [backslash, CHR ''x'', hex_digit (of_char c div 16), hex_digit (of_char c)]
      else [c])"

definition py_repr :: "string \<Rightarrow> string" where
  "py_repr s =
     (let q = (if squote \<in> set s \<and> dquote \<notin> set s then dquote else squote)
      in [q] @ concat (map (repr_char q) s) @ [q])"

definition repr_tuple :: "string list \<Rightarrow> string" where
  "repr_tuple xs =
     (case xs of
        [] \<Rightarrow> ''()''
      | [x] \<Rightarrow> ''('' @ py_repr x @ '',)''
      | _ \<Rightarrow> ''('' @ py_join '', '' (map py_repr xs) @ '')'')"

definition repr_list :: "string list \<Rightarrow> string" where
  "repr_list xs = ''['' @ py_join '', '' (map py_repr xs) @ '']''"

section \<open>Regular expressions\<close>

text \<open>
  The patterns of the scripts use character classes, concatenation, alternation,
  greedy \<open>?\<close>, \<open>*\<close> and \<open>+\<close>. \<open>rx_match r s\<close> lists what is left of \<open>s\<close> after each
  way of matching \<open>r\<close> at the start of \<open>s\<close>, in the order in which the backtracking
  matcher of \<open>re\<close> tries them: the head of the list is the match \<open>re\<close> reports.
  An iteration of \<open>*\<close> that consumes nothing is not repeated.
\<close>

datatype rx =
    Eps
  | Cls "char \<Rightarrow> bool"
  | Seq rx rx
  | Alt rx rx
  | Opt rx
  | Star rx

function rx_match :: "rx \<Rightarrow> string \<Rightarrow> string list" where
  "rx_match Eps s = [s]"
| "rx_match (Cls P) s = (case s of [] \<Rightarrow> [] | c # cs \<Rightarrow> if P c then [cs] else [])"
| "rx_match (Seq a b) s = concat (map (rx_match b) (rx_match a s))"
| "rx_match (Alt a b) s = rx_match a s @ rx_match b s"
| "rx_match (Opt a) s = rx_match a s @ [s]"
| "rx_match (Star a) s =
     concat (map (rx_match (Star a)) (filter (\<lambda>r. length r < length s) (rx_match a s))) @ [s]"
  by pat_completeness auto
termination
  by (relation "measures [\<lambda>(r, s). size r, \<lambda>(r, s). length s]") auto

definition Chr :: "char \<Rightarrow> rx" where
  "Chr c = Cls (\<lambda>x. x = c)"

definition Plus :: "rx \<Rightarrow> rx" where
  "Plus a = Seq a (Star a)"

text \<open>
  \<open>pattern.findall(text)\<close> for a pattern without capture groups: the matched
  substrings, scanning left to right and resuming after each match. The two patterns
  it is used with begin with a literal character, so no match is empty.
\<close>

function findall :: "rx \<Rightarrow> string \<Rightarrow> string list" where
  "findall r [] = []"
| "findall r (c # cs) =
     (case rx_match r (c # cs) of
        [] \<Rightarrow> findall r cs
      | rest # _ \<Rightarrow>
          if length rest < length (c # cs)
          then take (length (c # cs) - length rest) (c # cs) # findall r rest
          else findall r cs)"
  by pat_completeness auto
termination
  by (relation "measure (\<lambda>(r, s). length s)") auto

text \<open>
  \<^verbatim>\<open>FORMAT_PLACEHOLDER_RE = %(?:\d+\$)?[#+0\- ]*(?:\d+)?(?:\.\d+)?[a-zA-Z@]\<close>
\<close>

definition FORMAT_PLACEHOLDER_RE :: rx where
  "FORMAT_PLACEHOLDER_RE =
     Seq (Chr CHR ''%'')
    (Seq (Opt (Seq (Plus (Cls is_digit)) (Chr CHR ''$'')))
    (Seq (Star (Cls (\<lambda>c. c \<in> set ''#+0- '')))
    (Seq (Opt (Plus (Cls is_digit)))
    (Seq (Opt (Seq (Chr CHR ''.'') (Plus (Cls is_digit))))
         (Cls (\<lambda>c. is_ascii_letter c \<or> c = CHR ''@''))))))"

text \<open>\<^verbatim>\<open>INTERPOLATION_RE = \\\([^\)]+\)\<close>\<close>

definition INTERPOLATION_RE :: rx where
  "INTERPOLATION_RE =
     Seq (Chr backslash)
    (Seq (Chr CHR ''('')
    (Seq (Plus (Cls (\<lambda>c. c \<noteq> CHR '')'')))
         (Chr CHR '')'')))"

section \<open>Token Extractor and Validator\<close>

text \<open>
  \<open>extract_token_set\<close> and \<open>validate_translation\<close> are the same text in
  \<^verbatim>\<open>i18n_workflow.py\<close> and \<^verbatim>\<open>localize_with_openai.py\<close>.
\<close>

definition unit_symbols :: "string list" where
  "unit_symbols = [[degree, CHR ''F''], [degree, CHR ''C'']]"

definition extract_token_set :: "string \<Rightarrow> string list \<times> string list \<times> string list" where
  "extract_token_set text =
     (findall FORMAT_PLACEHOLDER_RE text,
      findall INTERPOLATION_RE text,
      filter (\<lambda>unit. py_contains unit text) unit_symbols)"

definition validate_translation :: "string \<Rightarrow> string \<Rightarrow> bool \<times> string" where
  "validate_translation source target =
     (case extract_token_set source of (src_placeholders, src_interpolations, src_units) \<Rightarrow>
      case extract_token_set target of (dst_placeholders, dst_interpolations, dst_units) \<Rightarrow>
        if src_placeholders \<noteq> dst_placeholders then
          (False, ''placeholder mismatch: expected '' @ repr_tuple src_placeholders
                    @ '', got '' @ repr_tuple dst_placeholders)
        else if src_interpolations \<noteq> dst_interpolations then
          (False, ''interpolation mismatch: expected '' @ repr_tuple src_interpolations
                    @ '', got '' @ repr_tuple dst_interpolations)
        else if src_units \<noteq> dst_units then
          (False, ''unit mismatch: expected '' @ repr_tuple src_units
                    @ '', got '' @ repr_tuple dst_units)
        else if py_strip target = [] then (False, ''empty translation'')
        else (True, ''ok''))"

section \<open>Data model\<close>

text \<open>
  The dataclasses \<open>Context\<close>, \<open>Candidate\<close> and \<open>TranslationRow\<close>. The rows that
  \<^verbatim>\<open>localize_with_openai.py\<close> builds are dicts with the same five keys.
\<close>

record Context =
  ctx_file :: string
  ctx_line :: int
  ctx_kind :: string
  ctx_target :: string

record Candidate =
  cand_source :: string
  cand_contexts :: "Context list"

record TranslationRow =
  row_source :: string
  row_target :: string
  row_status :: string
  row_validation :: string
  row_contexts :: "Context list"

text \<open>
  The exceptions that the code raises or lets through. \<open>RuntimeError\<close> carries its
  message; it also stands for its subclasses, which \<open>except RuntimeError\<close> catches too.
\<close>

datatype error =
    RuntimeError string
  | AttributeError
  | TypeError
  | OSError
  | JSONDecodeError
  | UnicodeDecodeError

section \<open>Batch Translation Orchestrator\<close>

text \<open>
  \<open>call_openai_batch\<close> sends one request and parses the answer into a dict, or raises
  \<open>RuntimeError\<close>. The network and the remote model are outside the program: a
  service \<open>svc\<close> stands for them. It maps its own state, the strings sent and the
  feedback sent to the dict that \<open>call_openai_batch\<close> returns and its next state,
  or to the error raised. The world of a run is the state of the service and the list
  of the requests issued so far.
\<close>

type_synonym 's service =
  "'s \<Rightarrow> string list \<Rightarrow> string option \<Rightarrow> error + ((string \<rightharpoonup> string) \<times> 's)"

type_synonym 's world = "'s \<times> (string list \<times> string option) list"

definition requests :: "'s world \<Rightarrow> (string list \<times> string option) list" where
  "requests w = snd w"

definition call_openai_batch ::
  "'s service \<Rightarrow> 's world \<Rightarrow> string list \<Rightarrow> string option
     \<Rightarrow> error + ((string \<rightharpoonup> string) \<times> 's world)" where
  "call_openai_batch svc w sources validation_feedback =
     (case svc (fst w) sources validation_feedback of
        Inl e \<Rightarrow> Inl e
      | Inr (out, st) \<Rightarrow> Inr (out, (st, snd w @ [(sources, validation_feedback)])))"

definition MAX_RETRIES :: nat where "MAX_RETRIES = 2"

text \<open>\<open>BATCH_SIZE\<close> of \<^verbatim>\<open>i18n_workflow.py\<close> and of \<^verbatim>\<open>localize_with_openai.py\<close>.\<close>

definition BATCH_SIZE :: nat where "BATCH_SIZE = 30"
definition lwo_BATCH_SIZE :: nat where "lwo_BATCH_SIZE = 25"

text \<open>
  \<open>chunked\<close>: consecutive slices of \<open>sz\<close> elements (\<open>size\<close> in the source).
  \<open>range\<close> raises for a step of 0; both callers pass the constant batch size, and the
  equation for 0 is never used.
\<close>

function chunked :: "'a list \<Rightarrow> nat \<Rightarrow> 'a list list" where
  "chunked values sz =
     (if sz = 0 \<or> values = [] then []
      else take sz values # chunked (drop sz values) sz)"
  by pat_completeness auto
termination
  by (relation "measure (\<lambda>(values, sz). length values)") auto

text \<open>
  The loop \<open>for source in pending\<close> of one attempt: a source whose pair validates is
  finalized, the others are collected in \<open>next_pending\<close> with their issue lines.
\<close>

type_synonym finals = "(string \<rightharpoonup> string) \<times> (string \<rightharpoonup> string)"

fun validate_pending ::
  "(string \<rightharpoonup> string) \<Rightarrow> string list \<Rightarrow> finals \<times> string list \<times> string list
     \<Rightarrow> finals \<times> string list \<times> string list" where
  "validate_pending translated [] acc = acc"
| "validate_pending translated (source # rest) ((final_targets, validations), next_pending, issues) =
     (let target = (case translated source of None \<Rightarrow> source | Some t \<Rightarrow> t) in
      case validate_translation source target of
        (ok, reason) \<Rightarrow>
          if ok then
            validate_pending translated rest
              ((final_targets(source \<mapsto> target), validations(source \<mapsto> ''ok'')),
               next_pending, issues)
          else
            validate_pending translated rest
              ((final_targets, validations),
               next_pending @ [source], issues @ [source @ '' -> '' @ reason]))"

text \<open>The loop \<open>for source in next_pending\<close> after the last attempt.\<close>

fun fallback_pending :: "string list \<Rightarrow> finals \<Rightarrow> finals" where
  "fallback_pending [] acc = acc"
| "fallback_pending (source # rest) (final_targets, validations) =
     fallback_pending rest
       (final_targets(source \<mapsto> source),
        validations(source \<mapsto> ''fallback_due_to_validation''))"

text \<open>The feedback strings of the two scripts.\<close>

definition feedback_text :: "string list \<Rightarrow> string" where
  "feedback_text issues =
     ''Previous attempt failed validation. Fix only these entries and preserve placeholders/interpolations/units exactly: ''
       @ py_join ''; '' issues"

definition lwo_feedback_text :: "string list \<Rightarrow> string" where
  "lwo_feedback_text issues =
     ''Previous attempt failed validation. Fix only these strings and keep placeholders, ''
       @ ''interpolations, and units exactly: '' @ repr_list issues"

text \<open>
  The loop \<open>for attempt in range(MAX_RETRIES + 1)\<close>, from \<open>attempt\<close> on. The two
  scripts differ in the feedback string only, which is the parameter \<open>fmt\<close>;
  \<open>max_retries\<close> is the constant \<open>MAX_RETRIES\<close>.
\<close>

function attempt_loop ::
  "(string list \<Rightarrow> string) \<Rightarrow> nat \<Rightarrow> 's service \<Rightarrow> nat \<Rightarrow> string list \<Rightarrow> string option
     \<Rightarrow> finals \<Rightarrow> 's world \<Rightarrow> error + (finals \<times> 's world)" where
  "attempt_loop fmt max_retries svc attempt pending feedback acc w =
     (if \<not> attempt < max_retries + 1 then Inr (acc, w)
      else if pending = [] then Inr (acc, w)
      else
        case call_openai_batch svc w pending feedback of
          Inl e \<Rightarrow> Inl e
        | Inr (translated, w') \<Rightarrow>
            (case validate_pending translated pending (acc, [], []) of
               (acc', next_pending, issues) \<Rightarrow>
                 if next_pending \<noteq> [] \<and> attempt < max_retries then
                   attempt_loop fmt max_retries svc (attempt + 1) next_pending
                     (Some (fmt issues)) acc' w'
                 else Inr (fallback_pending next_pending acc', w')))"
  by pat_completeness auto
termination
  by (relation "measure (\<lambda>(fmt, max_retries, svc, attempt, pending, feedback, acc, w).
        max_retries + 1 - attempt)") auto

text \<open>One batch: \<open>pending = list(batch)\<close>, \<open>feedback = None\<close>, then the attempts.\<close>

definition translate_batch ::
  "(string list \<Rightarrow> string) \<Rightarrow> nat \<Rightarrow> 's service \<Rightarrow> string list \<Rightarrow> finals \<Rightarrow> 's world
     \<Rightarrow> error + (finals \<times> 's world)" where
  "translate_batch fmt max_retries svc batch acc w =
     attempt_loop fmt max_retries svc 0 batch None acc w"

text \<open>The loop over the batches; an error of a request ends the run.\<close>

fun translate_batches ::
  "(string list \<Rightarrow> string) \<Rightarrow> nat \<Rightarrow> 's service \<Rightarrow> string list list \<Rightarrow> finals \<Rightarrow> 's world
     \<Rightarrow> error + (finals \<times> 's world)" where
  "translate_batches fmt max_retries svc [] acc w = Inr (acc, w)"
| "translate_batches fmt max_retries svc (batch # batches) acc w =
     (case translate_batch fmt max_retries svc batch acc w of
        Inl e \<Rightarrow> Inl e
      | Inr (acc', w') \<Rightarrow> translate_batches fmt max_retries svc batches acc' w')"

definition make_row :: "finals \<Rightarrow> Candidate \<Rightarrow> TranslationRow" where
  "make_row acc candidate =
     (let target = (case fst acc (cand_source candidate) of
                      None \<Rightarrow> cand_source candidate | Some t \<Rightarrow> t);
          validation = (case snd acc (cand_source candidate) of
                      None \<Rightarrow> ''fallback_missing_translation'' | Some v \<Rightarrow> v);
          status = (if target \<noteq> cand_source candidate then ''translated'' else ''fallback'')
      in \<lparr>row_source = cand_source candidate, row_target = target, row_status = status,
          row_validation = validation, row_contexts = cand_contexts candidate\<rparr>)"

text \<open>\<open>translate_candidates\<close> of \<^verbatim>\<open>i18n_workflow.py\<close>.\<close>

definition translate_candidates ::
  "'s service \<Rightarrow> 's world \<Rightarrow> Candidate list \<Rightarrow> error + (TranslationRow list \<times> 's world)" where
  "translate_candidates svc w candidates =
     (let ordered_sources = map cand_source candidates in
      case translate_batches feedback_text MAX_RETRIES svc
             (chunked ordered_sources BATCH_SIZE) (Map.empty, Map.empty) w of
        Inl e \<Rightarrow> Inl e
      | Inr (acc, w') \<Rightarrow> Inr (map (make_row acc) candidates, w'))"

text \<open>\<open>translate_candidates\<close> of \<^verbatim>\<open>localize_with_openai.py\<close>.\<close>

definition lwo_translate_candidates ::
  "'s service \<Rightarrow> 's world \<Rightarrow> Candidate list \<Rightarrow> error + (TranslationRow list \<times> 's world)" where
  "lwo_translate_candidates svc w candidates =
     (case translate_batches lwo_feedback_text MAX_RETRIES svc
             (chunked (map cand_source candidates) lwo_BATCH_SIZE) (Map.empty, Map.empty) w of
        Inl e \<Rightarrow> Inl e
      | Inr (acc, w') \<Rightarrow> Inr (map (make_row acc) candidates, w'))"

section \<open>Literal Scanner: the manifest\<close>

text \<open>
  \<open>looks_translatable\<close>, the pre-filter of \<^verbatim>\<open>i18n_workflow.py\<close>.
  \<open>re.search(r"[A-Za-z]", text)\<close> finds a match when \<open>text\<close> holds an ASCII letter.
\<close>

definition SKIP_LITERALS :: "string set" where
  "SKIP_LITERALS =
     {''doc.text.magnifyingglass'', ''magnifyingglass'', ''arrow.triangle.2.circlepath'',
      ''plus.circle.fill'', ''arrow.left.arrow.right'', ''doc.text'', ''doc.badge.gearshape'',
      ''trash'', ''location.fill'', ''clock.fill'', ''arrow.counterclockwise'',
      ''globe.americas.fill'', ''mappin.slash'', ''mappin.circle.fill'', ''xmark.circle.fill'',
      ''line.3.horizontal'', ''lock.fill'', ''thermometer.medium'', ''equal'',
      ''chevron.right'', ''xmark'', ''clock'', ''gear'', ''ellipsis.circle'',
      ''arrow.clockwise''}"

definition looks_translatable :: "string \<Rightarrow> bool" where
  "looks_translatable text =
     (if py_strip text = [] then False
      else if text \<in> SKIP_LITERALS then False
      else if startswith (py_strip text) ''%'' then False
      else if startswith text [backslash, CHR ''(''] then False
      else if \<not> (\<exists>c\<in>set text. is_ascii_letter c) then False
      else True)"

text \<open>
  \<^verbatim>\<open>PLIST_KEY_PATTERN = INFOPLIST_KEY_(NSLocationAlwaysAndWhenInUseUsageDescription|NSLocationWhenInUseUsageDescription)\s*=\s*"((?:\\.|[^"\\])*)";\<close>

  \<open>PLIST_KEY_PATTERN_match s\<close> lists the ways the pattern matches at the start of
  \<open>s\<close>, in the matcher's order, each with its two groups: the key name and the value
  between the quotes. \<open>PLIST_KEY_PATTERN_search\<close> is \<open>pattern.search(line)\<close>: the
  first match at the leftmost position that has one.
\<close>

fun Lit :: "string \<Rightarrow> rx" where
  "Lit [] = Eps"
| "Lit (c # cs) = Seq (Chr c) (Lit cs)"

definition PLIST_KEY_NAMES :: "string list" where
  "PLIST_KEY_NAMES =
     [''NSLocationAlwaysAndWhenInUseUsageDescription'', ''NSLocationWhenInUseUsageDescription'']"

definition PLIST_VALUE_RE :: rx where
  "PLIST_VALUE_RE =
     Star (Alt (Seq (Chr backslash) (Cls (\<lambda>c. c \<noteq> newline)))
               (Cls (\<lambda>c. c \<noteq> dquote \<and> c \<noteq> backslash)))"

definition PLIST_KEY_PATTERN_match :: "string \<Rightarrow> (string \<times> string) list" where
  "PLIST_KEY_PATTERN_match s =
     [(key_name, take (length s3 - length s4) s3).
        s1 \<leftarrow> rx_match (Lit ''INFOPLIST_KEY_'') s,
        key_name \<leftarrow> PLIST_KEY_NAMES,
        s2 \<leftarrow> rx_match (Lit key_name) s1,
        s3 \<leftarrow> rx_match (Seq (Star (Cls is_space))
                        (Seq (Chr CHR ''='') (Seq (Star (Cls is_space)) (Chr dquote)))) s2,
        s4 \<leftarrow> rx_match PLIST_VALUE_RE s3,
        s5 \<leftarrow> rx_match (Lit [dquote, CHR '';'']) s4]"

fun PLIST_KEY_PATTERN_search :: "string \<Rightarrow> (string \<times> string) option" where
  "PLIST_KEY_PATTERN_search [] =
     (case PLIST_KEY_PATTERN_match [] of [] \<Rightarrow> None | m # _ \<Rightarrow> Some m)"
| "PLIST_KEY_PATTERN_search (c # cs) =
     (case PLIST_KEY_PATTERN_match (c # cs) of
        [] \<Rightarrow> PLIST_KEY_PATTERN_search cs
      | m # _ \<Rightarrow> Some m)"

text \<open>
  \<open>collect_plist_keys\<close>, from the lines of \<^verbatim>\<open>project.pbxproj\<close>. \<open>by_key\<close> is a
  dict: an association list in insertion order.
\<close>

definition pbx_relative_path :: string where
  "pbx_relative_path = ''Alexis Farenheit.xcodeproj/project.pbxproj''"

fun collect_plist_lines ::
  "(int \<times> string) list \<Rightarrow> (string \<times> Context) list \<times> (string \<times> string) list
     \<Rightarrow> (string \<times> Context) list \<times> (string \<times> string) list" where
  "collect_plist_lines [] acc = acc"
| "collect_plist_lines ((line_no, line) # rest) (out, by_key) =
     (case PLIST_KEY_PATTERN_search line of
        None \<Rightarrow> collect_plist_lines rest (out, by_key)
      | Some (key_name, v) \<Rightarrow>
          collect_plist_lines rest
            (if looks_translatable v
             then out @ [(v, \<lparr>ctx_file = pbx_relative_path, ctx_line = line_no,
                               ctx_kind = ''InfoPlistUsageDescription'', ctx_target = ''app''\<rparr>)]
             else out,
             if key_name \<notin> set (map fst by_key) then by_key @ [(key_name, v)] else by_key))"

definition required :: "string set" where
  "required =
     {''NSLocationAlwaysAndWhenInUseUsageDescription'', ''NSLocationWhenInUseUsageDescription''}"

definition collect_plist_keys ::
  "string list \<Rightarrow> error + ((string \<times> Context) list \<times> (string \<times> string) list)" where
  "collect_plist_keys lines =
     (case collect_plist_lines (zip [1..int (length lines)] lines) ([], []) of
        (out, by_key) \<Rightarrow>
          if set (map fst by_key) \<noteq> required then
            (let missing = required - set (map fst by_key) in
             Inl (RuntimeError
               (''Missing required InfoPlist usage description keys in project.pbxproj: ''
                  @ repr_list (sorted_list_of_set missing))))
          else Inr (out, by_key))"

section \<open>Candidate Aggregator\<close>

text \<open>
  \<open>grouped[source].append(ctx)\<close> on a \<open>defaultdict(list)\<close>: a new source is added
  after the others, a known source keeps its place.
\<close>

definition group_append ::
  "(string \<times> Context list) list \<Rightarrow> string \<times> Context \<Rightarrow> (string \<times> Context list) list" where
  "group_append grouped item =
     (case item of (source, ctx) \<Rightarrow>
        (case map_of grouped source of
           None \<Rightarrow> grouped @ [(source, [ctx])]
         | Some contexts \<Rightarrow> AList.update source (contexts @ [ctx]) grouped))"

definition ctx_key :: "Context \<Rightarrow> string \<times> int \<times> string \<times> string" where
  "ctx_key c = (ctx_file c, ctx_line c, ctx_kind c, ctx_target c)"

text \<open>
  \<open>build_candidates\<close> of \<^verbatim>\<open>i18n_workflow.py\<close>. Reading the catalogs and the Swift
  files is outside the model: \<open>scanned\<close> is the list of the pairs that
  \<open>collect_catalog_keys\<close> and \<open>collect_code_keys\<close> yield over \<open>include_targets\<close>, in
  the order of the loops. A Python set is iterated in an order that the hashes of its
  elements decide; \<open>iter\<close> is that order: it lists each element of \<open>contexts\<close> once.
\<close>

definition build_candidates ::
  "(Context list \<Rightarrow> Context list) \<Rightarrow> (string \<times> Context) list \<Rightarrow> string list
     \<Rightarrow> error + (Candidate list \<times> (string \<times> string) list)" where
  "build_candidates iter scanned lines =
     (let grouped = foldl group_append [] scanned in
      case collect_plist_keys lines of
        Inl e \<Rightarrow> Inl e
      | Inr (plist_candidates, plist_by_key) \<Rightarrow>
          (let grouped = foldl group_append grouped plist_candidates in
           Inr (map (\<lambda>(source, contexts).
                      \<lparr>cand_source = source,
                       cand_contexts = sort_key ctx_key (iter contexts)\<rparr>)
                    (sort_key (\<lambda>item. py_lower (fst item)) grouped),
                plist_by_key)))"

text \<open>
  \<open>extract_candidates\<close> of \<^verbatim>\<open>localize_with_openai.py\<close>. \<open>scanned\<close> is the list of
  the calls of \<open>add\<close>, in order: the pattern matches in the Swift files and in
  \<^verbatim>\<open>project.pbxproj\<close>. The keys of \<open>buckets\<close> are distinct, so
  \<open>sorted(buckets.items())\<close> never compares two lists of contexts: it sorts by key.
\<close>

definition SPANISH_KEYWORDS :: "string list" where
  "SPANISH_KEYWORDS =
     [''agregar'', ''busca'', ''buscar'', ''ciudad'', ''ciudades'', ''cancelar'', ''actualizar'',
      ''zona horaria'', ''conversor'', ''sin resultados'', ''intenta'', ''permiso'',
      ''ubicaci'' @ [CHR 0xF3] @ ''n'', ''ajustes'', ''muestra'', ''desliza'', ''tiempo mundial'',
      ''cerrar'', ''limpiar'', ''m'' @ [CHR 0xE1] @ ''ximo'', ''esta ciudad'', ''no se pudo'',
      ''obteniendo'', ''solicitando'', ''lugar'', ''lugares'']"

definition is_spanish_like :: "string \<Rightarrow> bool" where
  "is_spanish_like text =
     (let lower = py_lower text in
      if \<exists>ch\<in>set [CHR 0xE1, CHR 0xE9, CHR 0xED, CHR 0xF3, CHR 0xFA, CHR 0xF1, CHR 0xBF, CHR 0xA1].
           ch \<in> set lower
      then True
      else \<exists>token\<in>set SPANISH_KEYWORDS. py_contains token lower)"

definition should_include_for_source_lang :: "string \<Rightarrow> string \<Rightarrow> bool" where
  "should_include_for_source_lang text source_lang =
     (if py_lower source_lang = ''es'' then is_spanish_like text else True)"

definition add :: "string \<Rightarrow> (string \<times> Context list) list \<Rightarrow> string \<times> Context
     \<Rightarrow> (string \<times> Context list) list" where
  "add source_lang buckets item =
     (case item of (source, ctx) \<Rightarrow>
        if py_strip source = [] then buckets
        else if \<not> should_include_for_source_lang source source_lang then buckets
        else group_append buckets (source, ctx))"

definition extract_candidates :: "(string \<times> Context) list \<Rightarrow> string \<Rightarrow> Candidate list" where
  "extract_candidates scanned source_lang =
     map (\<lambda>(source, contexts). \<lparr>cand_source = source, cand_contexts = contexts\<rparr>)
         (sort_key fst (foldl (add source_lang) [] scanned))"

section \<open>Catalog Merger\<close>

text \<open>
  What \<open>json.loads\<close> returns: \<open>None\<close>, a bool, a number, a string, a list, or a
  dict, which keeps its keys in insertion order and is an association list here.
  \<open>update_catalog\<close> never looks into a number; only the integers are represented.
  The text that \<open>json.dumps\<close> writes is determined by the value written, and reading
  it back gives that value: the content of a catalog file is the value itself.
\<close>

datatype json =
    JNull
  | JBool bool
  | JNum int
  | JStr string
  | JArr "json list"
  | JObj "(string \<times> json) list"

text \<open>\<open>d.setdefault(k, v)\<close>: the dict after the call, and the value returned.\<close>

definition dict_setdefault ::
  "(string \<times> json) list \<Rightarrow> string \<Rightarrow> json \<Rightarrow> (string \<times> json) list \<times> json" where
  "dict_setdefault d k v =
     (case map_of d k of Some x \<Rightarrow> (d, x) | None \<Rightarrow> (d @ [(k, v)], v))"

text \<open>
  \<open>x.get(k, {})\<close> and \<open>x.get(k)\<close>: only a dict has the method.
\<close>

definition json_get :: "json \<Rightarrow> string \<Rightarrow> json \<Rightarrow> error + json" where
  "json_get x k dflt =
     (case x of
        JObj d \<Rightarrow> Inr (case map_of d k of Some v \<Rightarrow> v | None \<Rightarrow> dflt)
      | _ \<Rightarrow> Inl AttributeError)"

text \<open>
  \<open>k in x\<close> for a string \<open>k\<close>: a key of a dict, an element of a list, a substring
  of a string; \<open>TypeError\<close> for anything else.
\<close>

definition json_contains :: "json \<Rightarrow> string \<Rightarrow> error + bool" where
  "json_contains x k =
     (case x of
        JObj d \<Rightarrow> Inr (k \<in> set (map fst d))
      | JArr xs \<Rightarrow> Inr (JStr k \<in> set xs)
      | JStr s \<Rightarrow> Inr (py_contains k s)
      | _ \<Rightarrow> Inl TypeError)"

definition string_unit :: "string \<Rightarrow> json" where
  "string_unit localized_value =
     JObj [(''stringUnit'',
            JObj [(''state'', JStr ''translated''), (''value'', JStr localized_value)])]"

text \<open>
  The value of \<open>previous\<close>: \<open>localizations.get(language, {}).get("stringUnit",
  {}).get("value")\<close> when \<open>language in localizations\<close>, else \<open>None\<close>. Here
  \<open>localizations\<close> is a dict.
\<close>

definition previous_value :: "(string \<times> json) list \<Rightarrow> string \<Rightarrow> error + json" where
  "previous_value ld language =
     (if language \<in> set (map fst ld) then
        (case json_get (JObj ld) language (JObj []) of
           Inl e \<Rightarrow> Inl e
         | Inr x \<Rightarrow>
             (case json_get x ''stringUnit'' (JObj []) of
                Inl e \<Rightarrow> Inl e
              | Inr y \<Rightarrow> json_get y ''value'' JNull))
      else Inr JNull)"

text \<open>
  The part of the loop body from \<open>localizations = entry.setdefault(...)\<close> on, for an
  entry \<open>ed\<close> that is a dict: the entry after it and whether \<open>changed\<close> was
  incremented. A \<open>localizations\<close> that is not a dict raises: at \<open>.get\<close> when it
  contains \<open>language\<close>, at the item assignment otherwise.
\<close>

definition merge_localization ::
  "string \<Rightarrow> string \<Rightarrow> (string \<times> json) list \<Rightarrow> error + ((string \<times> json) list \<times> nat)" where
  "merge_localization language localized_value ed =
     (case dict_setdefault ed ''localizations'' (JObj []) of
        (ed', localizations) \<Rightarrow>
          (case localizations of
             JObj ld \<Rightarrow>
               (case previous_value ld language of
                  Inl e \<Rightarrow> Inl e
                | Inr previous \<Rightarrow>
                    Inr (AList.update ''localizations''
                           (JObj (AList.update language (string_unit localized_value) ld)) ed',
                         if previous \<noteq> JStr localized_value then 1 else 0))
           | _ \<Rightarrow>
               (case json_contains localizations language of
                  Inl e \<Rightarrow> Inl e
                | Inr True \<Rightarrow> Inl AttributeError
                | Inr False \<Rightarrow> Inl TypeError)))"

text \<open>
  The body of the loop \<open>for source_key, localized_value in translations.items()\<close>,
  on the dict \<open>sd\<close> that \<open>catalog["strings"]\<close> is. An entry that is not a dict
  raises: at the test \<open>"extractionState" not in entry\<close>, at the item assignment, or
  at \<open>entry.setdefault\<close>.
\<close>

definition merge_entry ::
  "string \<Rightarrow> (string \<times> json) list \<Rightarrow> string \<times> string
     \<Rightarrow> error + ((string \<times> json) list \<times> nat)" where
  "merge_entry language sd item =
     (case item of (source_key, localized_value) \<Rightarrow>
        (case dict_setdefault sd source_key (JObj []) of
           (sd', entry) \<Rightarrow>
             (case entry of
                JObj ed \<Rightarrow>
                  (case merge_localization language localized_value
                          (if ''extractionState'' \<notin> set (map fst ed)
                           then AList.update ''extractionState'' (JStr ''manual'') ed
                           else ed) of
                     Inl e \<Rightarrow> Inl e
                   | Inr (ed', n) \<Rightarrow> Inr (AList.update source_key (JObj ed') sd', n))
              | _ \<Rightarrow>
                  (case json_contains entry ''extractionState'' of
                     Inl e \<Rightarrow> Inl e
                   | Inr True \<Rightarrow> Inl AttributeError
                   | Inr False \<Rightarrow> Inl TypeError))))"

fun merge_entries ::
  "string \<Rightarrow> (string \<times> string) list \<Rightarrow> (string \<times> json) list \<times> nat
     \<Rightarrow> error + ((string \<times> json) list \<times> nat)" where
  "merge_entries language [] acc = Inr acc"
| "merge_entries language (item # rest) (sd, changed) =
     (case merge_entry language sd item of
        Inl e \<Rightarrow> Inl e
      | Inr (sd', n) \<Rightarrow> merge_entries language rest (sd', changed + n))"

text \<open>
  \<open>update_catalog\<close> of \<^verbatim>\<open>i18n_workflow.py\<close>. \<open>existing\<close> is the value read from
  \<open>catalog_path\<close>, or \<open>None\<close> when the file does not exist; \<open>translations\<close> is
  the dict of the translations, in insertion order. The result is the value written
  to the file and the count returned. With no translation the loop does not run, and a
  \<open>catalog["strings"]\<close> that is not a dict raises at \<open>.items()\<close>.
\<close>

definition update_catalog ::
  "json option \<Rightarrow> string \<Rightarrow> (string \<times> string) list \<Rightarrow> error + (json \<times> nat)" where
  "update_catalog existing language translations =
     (let catalog = (case existing of
                       Some c \<Rightarrow> c
                     | None \<Rightarrow> JObj [(''sourceLanguage'', JStr ''en''), (''strings'', JObj []),
                                      (''version'', JStr ''1.0'')]) in
      case catalog of
        JObj cd \<Rightarrow>
          (let cd = fst (dict_setdefault cd ''strings'' (JObj []));
               cd = AList.update ''sourceLanguage'' (JStr ''en'') cd;
               cd = AList.update ''version'' (JStr ''1.0'') cd in
           case map_of cd ''strings'' of
             Some (JObj sd) \<Rightarrow>
               (case merge_entries language translations (sd, 0) of
                  Inl e \<Rightarrow> Inl e
                | Inr (sd', changed) \<Rightarrow>
                    Inr (JObj [(''sourceLanguage'', JStr ''en''),
                               (''strings'', JObj (sort_key (\<lambda>item. py_lower (fst item)) sd')),
                               (''version'', JStr ''1.0'')],
                         changed))
           | _ \<Rightarrow> Inl AttributeError)
      | _ \<Rightarrow> Inl AttributeError)"

section \<open>The run\<close>

text \<open>\<open>text.split(",")\<close>.\<close>

fun split_on :: "char \<Rightarrow> string \<Rightarrow> string list" where
  "split_on sep [] = [[]]"
| "split_on sep (c # cs) =
     (if c = sep then [] # split_on sep cs
      else (case split_on sep cs of
              [] \<Rightarrow> [[c]]
            | x # xs \<Rightarrow> (c # x) # xs))"

definition parse_include_targets :: "string \<Rightarrow> string list" where
  "parse_include_targets arg =
     filter (\<lambda>token. token \<noteq> []) (map py_strip (split_on CHR '','' arg))"

text \<open>
  What \<open>main\<close> of \<^verbatim>\<open>i18n_workflow.py\<close> reads and writes before it translates.
  Each step may raise instead of giving its result:
  \<^item> \<open>prj_mkdir\<close>: the exception of \<open>artifact_dir.mkdir\<close>, if it raises;
  \<^item> \<open>prj_scan\<close>: for the targets included, the pairs that \<open>collect_catalog_keys\<close> and
    \<open>collect_code_keys\<close> yield in the loops of \<open>build_candidates\<close>, or the exception
    that reading or parsing a catalog or a Swift file raises there;
  \<^item> \<open>prj_pbxproj\<close>: the lines of \<^verbatim>\<open>project.pbxproj\<close>, or the exception of reading it
    in \<open>collect_plist_keys\<close>;
  \<^item> \<open>prj_write\<close>: the exception of \<open>write_candidates_artifact\<close>, if it raises.
\<close>

record project =
  prj_mkdir :: "error option"
  prj_scan :: "string list \<Rightarrow> error + (string \<times> Context) list"
  prj_pbxproj :: "error + string list"
  prj_write :: "error option"

text \<open>
  How a run of \<open>main\<close> ends, as far as it is modelled: it returns an exit code after
  printing lines to \<open>stderr\<close>; or an exception leaves it before the translation; or
  a request raises and the exception leaves it; or it has the rows and goes on to
  register the region, merge the catalogs and run the tests, which is not modelled.
  The world a run ends in holds the requests it has issued.
\<close>

datatype 's run =
    Returned int "string list" "'s world"
  | Raised error "'s world"
  | Request_raised error
  | Merges "TranslationRow list" "(string \<times> string) list" "'s world"

text \<open>
  The handler of the \<open>try\<close> around \<open>build_candidates\<close>: \<open>except RuntimeError\<close> prints
  the message and returns 1; any other exception leaves \<open>main\<close>.
\<close>

definition except_RuntimeError :: "'s world \<Rightarrow> error \<Rightarrow> 's run" where
  "except_RuntimeError w e =
     (case e of
        RuntimeError msg \<Rightarrow> Returned 1 [''error: '' @ msg] w
      | _ \<Rightarrow> Raised e w)"

text \<open>
  \<open>main\<close> of \<^verbatim>\<open>i18n_workflow.py\<close>, up to the translation. The scanning loops of
  \<open>build_candidates\<close> and the reading of the manifest run inside the \<open>try\<close>, in that
  order, before the keys of the manifest are checked.
\<close>

definition main ::
  "'s service \<Rightarrow> 's world \<Rightarrow> (Context list \<Rightarrow> Context list) \<Rightarrow> project
     \<Rightarrow> string \<Rightarrow> bool \<Rightarrow> string option \<Rightarrow> 's run" where
  "main svc w iter prj include_targets_arg dry_run api_key =
     (let include_targets = parse_include_targets include_targets_arg;
          invalid_targets = filter (\<lambda>token. token \<notin> {''app'', ''widget''}) include_targets
      in
      if invalid_targets \<noteq> [] then
        Returned 2 [''error: invalid targets in --include-targets: ''
                      @ repr_list invalid_targets] w
      else
        case prj_mkdir prj of
          Some e \<Rightarrow> Raised e w
        | None \<Rightarrow>
        (case prj_scan prj include_targets of
          Inl e \<Rightarrow> except_RuntimeError w e
        | Inr scanned \<Rightarrow>
        (case prj_pbxproj prj of
          Inl e \<Rightarrow> except_RuntimeError w e
        | Inr pbxproj_lines \<Rightarrow>
        (case build_candidates iter scanned pbxproj_lines of
          Inl e \<Rightarrow> except_RuntimeError w e
        | Inr (candidates, plist_by_key) \<Rightarrow>
            (case prj_write prj of
               Some e \<Rightarrow> Raised e w
             | None \<Rightarrow>
                 if dry_run then Returned 0 [] w
                 else if api_key = None \<or> api_key = Some [] then
                   Returned 2
                     [''error: OPENAI_API_KEY is required (except in --dry-run mode)''] w
                 else
                   (case translate_candidates svc w candidates of
                      Inl e \<Rightarrow> Request_raised e
                    | Inr (rows, w') \<Rightarrow> Merges rows plist_by_key w'))))))"

section \<open>Notions used in the statements\<close>

text \<open>The three components of the fingerprint of a string.\<close>

abbreviation (input) placeholders_of :: "string \<Rightarrow> string list" where
  "placeholders_of text \<equiv> fst (extract_token_set text)"

abbreviation (input) interpolations_of :: "string \<Rightarrow> string list" where
  "interpolations_of text \<equiv> fst (snd (extract_token_set text))"

abbreviation (input) units_of :: "string \<Rightarrow> string list" where
  "units_of text \<equiv> snd (snd (extract_token_set text))"

text \<open>
  Within one attempt: the target \<open>translated.get(source, source)\<close>, whether the pair
  validates, and the issue line of a pair that does not.
\<close>

definition returned_target :: "(string \<rightharpoonup> string) \<Rightarrow> string \<Rightarrow> string" where
  "returned_target translated source =
     (case translated source of None \<Rightarrow> source | Some t \<Rightarrow> t)"

definition passes :: "(string \<rightharpoonup> string) \<Rightarrow> string \<Rightarrow> bool" where
  "passes translated source =
     fst (validate_translation source (returned_target translated source))"

definition issue_line :: "(string \<rightharpoonup> string) \<Rightarrow> string \<Rightarrow> string" where
  "issue_line translated source =
     source @ '' -> '' @ snd (validate_translation source (returned_target translated source))"

text \<open>
  A service that answers every request, and maps each string it was sent to itself.
\<close>

definition returns_identity :: "'s service \<Rightarrow> bool" where
  "returns_identity svc =
     (\<forall>st sources fb. \<exists>out st'. svc st sources fb = Inr (out, st')
                         \<and> (\<forall>s\<in>set sources. out s = Some s))"

text \<open>Two services without state: one echoes its input, one returns the empty dict.\<close>

definition echo_service :: "unit service" where
  "echo_service st sources fb = Inr (map_of (zip sources sources), st)"

definition silent_service :: "unit service" where
  "silent_service st sources fb = Inr (Map.empty, st)"

text \<open>An order of iteration over a set lists each element once.\<close>

definition enumerates :: "('a list \<Rightarrow> 'a list) \<Rightarrow> bool" where
  "enumerates iter = (\<forall>xs. distinct (iter xs) \<and> set (iter xs) = set xs)"

text \<open>
  The key names that the lines of a manifest assign: on each line, the key of the match
  that \<open>PLIST_KEY_PATTERN.search\<close> finds.
\<close>

definition manifest_keys :: "string list \<Rightarrow> string list" where
  "manifest_keys lines = map fst (List.map_filter PLIST_KEY_PATTERN_search lines)"

text \<open>
  In a dict of catalog strings, the entry of a key carries the translation: it has an
  extraction state, and its localization for the language is the string unit of the
  value.
\<close>

definition settled :: "string \<Rightarrow> (string \<times> json) list \<Rightarrow> string \<Rightarrow> string \<Rightarrow> bool" where
  "settled language sd source_key localized_value =
     (\<exists>ed ld. map_of sd source_key = Some (JObj ed)
            \<and> ''extractionState'' \<in> set (map fst ed)
            \<and> map_of ed ''localizations'' = Some (JObj ld)
            \<and> map_of ld language = Some (string_unit localized_value))"

text \<open>A top-level field of a catalog, and its dict of strings.\<close>

definition catalog_field :: "json \<Rightarrow> string \<Rightarrow> json option" where
  "catalog_field c k = (case c of JObj cd \<Rightarrow> map_of cd k | _ \<Rightarrow> None)"

definition catalog_strings :: "json \<Rightarrow> (string \<times> json) list" where
  "catalog_strings c =
     (case catalog_field c ''strings'' of Some (JObj sd) \<Rightarrow> sd | _ \<Rightarrow> [])"

subsection \<open>Sample inputs\<close>

definition sample_manifest :: "string list" where
  "sample_manifest =
     [''INFOPLIST_KEY_NSLocationAlwaysAndWhenInUseUsageDescription = '' @ [dquote] @ ''Always''
        @ [dquote] @ '';'',
      ''INFOPLIST_KEY_NSLocationWhenInUseUsageDescription = '' @ [dquote] @ ''When''
        @ [dquote] @ '';'']"

definition sample_context :: "int \<Rightarrow> Context" where
  "sample_context n =
     \<lparr>ctx_file = ''Alexis Farenheit/ContentView.swift'', ctx_line = n, ctx_kind = ''Text'',
      ctx_target = ''app''\<rparr>"

text \<open>A project whose steps all succeed, with nothing scanned and the given manifest.\<close>

definition sample_project :: "string list \<Rightarrow> project" where
  "sample_project lines =
     \<lparr>prj_mkdir = None, prj_scan = (\<lambda>include_targets. Inr []), prj_pbxproj = Inr lines,
      prj_write = None\<rparr>"

definition sample_catalog :: json where
  "sample_catalog =
     JObj [(''sourceLanguage'', JStr ''es''),
           (''version'', JStr ''2.0''),
           (''strings'',
            JObj [(''Hello'', JObj [(''comment'', JStr ''greeting'')]),
                  (''Bye'', JObj [(''localizations'',
                                   JObj [(''es'', string_unit ''Adios'')])])])]"

section \<open>Validator: properties\<close>

lemma dropWhile_all_iff:
  "(\<forall>x\<in>set (dropWhile P xs). P x) \<longleftrightarrow> (\<forall>x\<in>set xs. P x)"
  by (induction xs) auto

lemma py_strip_empty_iff: "py_strip s = [] \<longleftrightarrow> (\<forall>c\<in>set s. is_space c)"
  by (simp add: py_strip_def dropWhile_eq_Nil_conv dropWhile_all_iff)

lemma rx_match_Seq_Chr_Cons:
  "rx_match (Seq (Chr x) b) (c # cs) \<noteq> [] \<Longrightarrow> c = x"
  by (auto simp: Chr_def split: if_splits)

lemma findall_Seq_Chr_mem:
  "findall (Seq (Chr x) b) s \<noteq> [] \<Longrightarrow> x \<in> set s"
proof (induction s rule: length_induct)
  case (1 s)
  show ?case
  proof (cases s)
    case Nil
    with 1 show ?thesis by simp
  next
    case (Cons c cs)
    show ?thesis
    proof (cases "rx_match (Seq (Chr x) b) (c # cs) = []")
      case True
      with 1 Cons have "findall (Seq (Chr x) b) cs \<noteq> []" by (simp del: rx_match.simps)
      with 1 Cons show ?thesis by auto
    next
      case False
      then have "c = x" by (rule rx_match_Seq_Chr_Cons)
      with Cons show ?thesis by simp
    qed
  qed
qed

lemma placeholder_has_percent:
  "findall FORMAT_PLACEHOLDER_RE s \<noteq> [] \<Longrightarrow> CHR ''%'' \<in> set s"
  unfolding FORMAT_PLACEHOLDER_RE_def by (rule findall_Seq_Chr_mem)

lemma interpolation_has_backslash:
  "findall INTERPOLATION_RE s \<noteq> [] \<Longrightarrow> backslash \<in> set s"
  unfolding INTERPOLATION_RE_def by (rule findall_Seq_Chr_mem)

lemma validate_translation_same:
  "validate_translation s s = (if py_strip s = [] then (False, ''empty translation'') else (True, ''ok''))"
  by (simp add: validate_translation_def split: prod.splits)

text \<open>
  C4. \<open>validate_translation\<close> checks in a fixed order: the placeholder tuples, then the
  interpolation tuples, then the units, then whether the target is blank. The reason
  returned is that of the first check that fails, whatever the later checks would say.
\<close>

theorem validate_priority_order:
  "(placeholders_of source \<noteq> placeholders_of target \<longrightarrow>
      validate_translation source target =
        (False, ''placeholder mismatch: expected '' @ repr_tuple (placeholders_of source)
                  @ '', got '' @ repr_tuple (placeholders_of target)))
   \<and> (placeholders_of source = placeholders_of target
        \<and> interpolations_of source \<noteq> interpolations_of target \<longrightarrow>
      validate_translation source target =
        (False, ''interpolation mismatch: expected '' @ repr_tuple (interpolations_of source)
                  @ '', got '' @ repr_tuple (interpolations_of target)))
   \<and> (placeholders_of source = placeholders_of target
        \<and> interpolations_of source = interpolations_of target
        \<and> units_of source \<noteq> units_of target \<longrightarrow>
      validate_translation source target =
        (False, ''unit mismatch: expected '' @ repr_tuple (units_of source)
                  @ '', got '' @ repr_tuple (units_of target)))
   \<and> (extract_token_set source = extract_token_set target \<and> py_strip target = [] \<longrightarrow>
      validate_translation source target = (False, ''empty translation''))
   \<and> (extract_token_set source = extract_token_set target \<and> py_strip target \<noteq> [] \<longrightarrow>
      validate_translation source target = (True, ''ok''))"
  by (simp add: validate_translation_def split: prod.splits)

theorem validate_priority_order_witness:
  "placeholders_of (''%d '' @ [backslash] @ ''(x) '' @ [degree] @ ''F'') \<noteq> placeholders_of ''''
   \<and> interpolations_of (''%d '' @ [backslash] @ ''(x) '' @ [degree] @ ''F'') \<noteq> interpolations_of ''''
   \<and> units_of (''%d '' @ [backslash] @ ''(x) '' @ [degree] @ ''F'') \<noteq> units_of ''''
   \<and> py_strip '''' = []
   \<and> validate_translation (''%d '' @ [backslash] @ ''(x) '' @ [degree] @ ''F'') '''' =
       (False, ''placeholder mismatch: expected ('' @ [squote] @ ''%d'' @ [squote] @ '',), got ()'')"
proof -
  let ?s = "''%d '' @ [backslash] @ ''(x) '' @ [degree] @ ''F''"
  have p: "placeholders_of ?s = [''%d'']" by code_simp
  have p': "placeholders_of '''' = []" by code_simp
  have i: "interpolations_of ?s \<noteq> interpolations_of ''''" by code_simp
  have u: "units_of ?s \<noteq> units_of ''''" by code_simp
  have e: "py_strip '''' = []" by code_simp
  have r: "repr_tuple [''%d''] = ''('' @ [squote] @ ''%d'' @ [squote] @ '',)''" by code_simp
  have r': "repr_tuple [] = ''()''" by code_simp
  from validate_priority_order [of ?s "''''"] p p'
  have "validate_translation ?s '''' =
      (False, ''placeholder mismatch: expected '' @ repr_tuple [''%d''] @ '', got '' @ repr_tuple [])"
    by simp
  with p p' i u e show ?thesis by (simp only: r r') simp
qed

text \<open>
  C6. A string with at least one format placeholder or at least one interpolation span
  validates against itself.
\<close>

theorem validate_identity_ok:
  assumes "placeholders_of s \<noteq> [] \<or> interpolations_of s \<noteq> []"
  shows "validate_translation s s = (True, ''ok'')"
proof -
  from assms have "CHR ''%'' \<in> set s \<or> backslash \<in> set s"
    by (auto simp: extract_token_set_def dest: placeholder_has_percent interpolation_has_backslash)
  moreover have "\<not> is_space CHR ''%''" "\<not> is_space backslash"
    by (simp_all add: is_space_def)
  ultimately have "\<not> (\<forall>c\<in>set s. is_space c)" by blast
  then show ?thesis by (simp add: validate_translation_same py_strip_empty_iff)
qed

theorem validate_identity_ok_witness:
  "placeholders_of ''Search %d cities'' = [''%d'']
   \<and> validate_translation ''Search %d cities'' ''Search %d cities'' = (True, ''ok'')"
proof -
  have h: "placeholders_of ''Search %d cities'' = [''%d'']" by code_simp
  then have "placeholders_of ''Search %d cities'' \<noteq> [] \<or> interpolations_of ''Search %d cities'' \<noteq> []" by simp
  from validate_identity_ok [OF this] h show ?thesis by simp
qed

text \<open>
  C7. When the placeholders agree and the interpolation spans of the target are those of
  the source in another order, \<open>validate_translation\<close> reports an interpolation
  mismatch.
\<close>

theorem reordered_interpolations_mismatch:
  assumes "placeholders_of source = placeholders_of target"
    and "mset (interpolations_of target) = mset (interpolations_of source)"
    and "interpolations_of target \<noteq> interpolations_of source"
  shows "validate_translation source target =
           (False, ''interpolation mismatch: expected '' @ repr_tuple (interpolations_of source)
                     @ '', got '' @ repr_tuple (interpolations_of target))"
  using assms by (auto simp: validate_translation_def split: prod.splits)

theorem reordered_interpolations_mismatch_witness:
  "interpolations_of ([backslash] @ ''(a) to '' @ [backslash] @ ''(b)'') = [[backslash] @ ''(a)'', [backslash] @ ''(b)'']
   \<and> interpolations_of ([backslash] @ ''(b) to '' @ [backslash] @ ''(a)'') = [[backslash] @ ''(b)'', [backslash] @ ''(a)'']
   \<and> fst (validate_translation ([backslash] @ ''(a) to '' @ [backslash] @ ''(b)'')
                               ([backslash] @ ''(b) to '' @ [backslash] @ ''(a)'')) = False
   \<and> take 22 (snd (validate_translation ([backslash] @ ''(a) to '' @ [backslash] @ ''(b)'')
                               ([backslash] @ ''(b) to '' @ [backslash] @ ''(a)''))) = ''interpolation mismatch''"
proof -
  let ?s = "[backslash] @ ''(a) to '' @ [backslash] @ ''(b)''"
  let ?t = "[backslash] @ ''(b) to '' @ [backslash] @ ''(a)''"
  have p: "placeholders_of ?s = placeholders_of ?t" by code_simp
  have s: "interpolations_of ?s = [[backslash] @ ''(a)'', [backslash] @ ''(b)'']" by code_simp
  have t: "interpolations_of ?t = [[backslash] @ ''(b)'', [backslash] @ ''(a)'']" by code_simp
  have m: "mset (interpolations_of ?t) = mset (interpolations_of ?s)"
    by (simp only: s t) simp
  have d: "interpolations_of ?t \<noteq> interpolations_of ?s"
    by (simp only: s t) simp
  from reordered_interpolations_mismatch [OF p m d] s t show ?thesis by simp
qed

text \<open>
  C9. A string that is empty or made of whitespace only does not validate against
  itself: the reason is \<open>empty translation\<close>.
\<close>

theorem validate_blank_identity:
  assumes "\<forall>c\<in>set s. is_space c"
  shows "validate_translation s s = (False, ''empty translation'')"
  using assms by (simp add: validate_translation_same py_strip_empty_iff)

theorem validate_blank_identity_witness:
  "(\<forall>c\<in>set '' ''. is_space c) = True
   \<and> validate_translation '' '' '' '' = (False, ''empty translation'')
   \<and> validate_translation '''' '''' = (False, ''empty translation'')"
proof -
  have a: "\<forall>c\<in>set '' ''. is_space c" by (simp add: is_space_def)
  have b: "\<forall>c\<in>set ''''. is_space c" by simp
  from validate_blank_identity [OF a] validate_blank_identity [OF b] a show ?thesis by simp
qed

section \<open>Orchestrator: properties\<close>

lemma validate_pending_Cons:
  "validate_pending translated (source # rest) ((ft, vs), np, iss) =
     (if passes translated source
      then validate_pending translated rest
             ((ft(source \<mapsto> returned_target translated source), vs(source \<mapsto> ''ok'')), np, iss)
      else validate_pending translated rest
             ((ft, vs), np @ [source], iss @ [issue_line translated source]))"
  by (simp add: passes_def returned_target_def issue_line_def Let_def split: prod.splits)

lemma validate_pending_result:
  "validate_pending translated pending ((ft, vs), np, iss) =
     ((\<lambda>s. if s \<in> set pending \<and> passes translated s then Some (returned_target translated s) else ft s,
       \<lambda>s. if s \<in> set pending \<and> passes translated s then Some ''ok'' else vs s),
      np @ filter (\<lambda>s. \<not> passes translated s) pending,
      iss @ map (issue_line translated) (filter (\<lambda>s. \<not> passes translated s) pending))"
proof (induction pending arbitrary: ft vs np iss)
  case Nil
  show ?case by simp
next
  case (Cons source rest)
  show ?case
    by (simp only: validate_pending_Cons Cons.IH) (auto simp: fun_eq_iff)
qed

lemma fallback_pending_result:
  "fallback_pending pending (ft, vs) =
     (\<lambda>s. if s \<in> set pending then Some s else ft s,
      \<lambda>s. if s \<in> set pending then Some ''fallback_due_to_validation'' else vs s)"
  by (induction pending arbitrary: ft vs) (auto simp: fun_eq_iff)

lemma call_identity:
  assumes "returns_identity svc"
  obtains out st' where
    "call_openai_batch svc w p fb = Inr (out, (st', snd w @ [(p, fb)]))"
    "\<forall>s\<in>set p. out s = Some s"
proof -
  from assms obtain out st' where
    "svc (fst w) p fb = Inr (out, st')" "\<forall>s\<in>set p. out s = Some s"
    unfolding returns_identity_def by blast
  then show thesis
    using that [of out st'] by (simp add: call_openai_batch_def)
qed

lemma passes_identity:
  "out s = Some s \<Longrightarrow> passes out s \<longleftrightarrow> py_strip s \<noteq> []"
  by (simp add: passes_def returned_target_def validate_translation_same)

lemma validate_pending_identity:
  assumes "\<forall>s\<in>set p. out s = Some s"
  shows "validate_pending out p ((ft, vs), [], []) =
     ((\<lambda>s. if s \<in> set p \<and> py_strip s \<noteq> [] then Some s else ft s,
       \<lambda>s. if s \<in> set p \<and> py_strip s \<noteq> [] then Some ''ok'' else vs s),
      filter (\<lambda>s. py_strip s = []) p,
      map (issue_line out) (filter (\<lambda>s. py_strip s = []) p))"
proof -
  have a: "\<And>s. s \<in> set p \<Longrightarrow> passes out s \<longleftrightarrow> py_strip s \<noteq> []"
    using assms by (simp add: passes_identity)
  have b: "\<And>s. s \<in> set p \<Longrightarrow> returned_target out s = s"
    using assms by (simp add: returned_target_def)
  have f: "filter (\<lambda>s. \<not> passes out s) p = filter (\<lambda>s. py_strip s = []) p"
    by (rule filter_cong) (simp_all add: a)
  show ?thesis
    unfolding validate_pending_result f using a b by (auto simp: fun_eq_iff)
qed

declare attempt_loop.simps [simp del]

lemma attempt_loop_blank:
  assumes id: "returns_identity svc"
    and ne: "q \<noteq> []"
    and blank: "\<forall>s\<in>set q. py_strip s = []"
  shows "attempt \<le> R \<Longrightarrow>
     \<exists>w'. attempt_loop fmt R svc attempt q fb acc w = Inr (fallback_pending q acc, w')
          \<and> length (requests w') = length (requests w) + (R + 1 - attempt)"
proof (induction "R - attempt" arbitrary: attempt fb w)
  case 0
  then have eq: "attempt = R" by simp
  obtain out st' where c: "call_openai_batch svc w q fb = Inr (out, (st', snd w @ [(q, fb)]))"
    and o: "\<forall>s\<in>set q. out s = Some s"
    using call_identity [OF id] by blast
  have v: "validate_pending out q (acc, [], []) = (acc, q, map (issue_line out) q)"
    using blank by (cases acc) (auto simp: validate_pending_identity [OF o] fun_eq_iff filter_id_conv)
  show ?case
    by (subst attempt_loop.simps) (simp add: eq ne c v requests_def)
next
  case (Suc n)
  then have lt: "attempt < R" and n: "n = R - (attempt + 1)" and le: "attempt + 1 \<le> R" by simp_all
  obtain out st' where c: "call_openai_batch svc w q fb = Inr (out, (st', snd w @ [(q, fb)]))"
    and o: "\<forall>s\<in>set q. out s = Some s"
    using call_identity [OF id] by blast
  have v: "validate_pending out q (acc, [], []) = (acc, q, map (issue_line out) q)"
    using blank by (cases acc) (auto simp: validate_pending_identity [OF o] fun_eq_iff filter_id_conv)
  from Suc.hyps(1) [OF n le, of "Some (fmt (map (issue_line out) q))" "(st', snd w @ [(q, fb)])"]
  obtain w' where
    r: "attempt_loop fmt R svc (attempt + 1) q (Some (fmt (map (issue_line out) q))) acc
          (st', snd w @ [(q, fb)]) = Inr (fallback_pending q acc, w')"
    and l: "length (requests w') = length (requests (st', snd w @ [(q, fb)])) + (R + 1 - (attempt + 1))"
    by blast
  have "attempt_loop fmt R svc attempt q fb acc w = Inr (fallback_pending q acc, w')"
    by (subst attempt_loop.simps) (use r lt in \<open>simp add: ne c v\<close>)
  moreover have "length (requests w') = length (requests w) + (R + 1 - attempt)"
    using l lt by (simp add: requests_def)
  ultimately show ?case by blast
qed

lemma attempt_loop_identity:
  assumes id: "returns_identity svc"
    and ne: "p \<noteq> []"
    and le: "attempt \<le> R"
  shows "\<exists>w'. attempt_loop fmt R svc attempt p fb (ft, vs) w =
            Inr ((\<lambda>s. if s \<in> set p then Some s else ft s,
                  \<lambda>s. if s \<in> set p
                       then Some (if py_strip s = [] then ''fallback_due_to_validation'' else ''ok'')
                       else vs s), w')
          \<and> length (requests w') = length (requests w)
                + (if \<exists>s\<in>set p. py_strip s = [] then R + 1 - attempt else 1)"
proof -
  let ?q = "filter (\<lambda>s. py_strip s = []) p"
  let ?acc = "(\<lambda>s. if s \<in> set p \<and> py_strip s \<noteq> [] then Some s else ft s,
               \<lambda>s. if s \<in> set p \<and> py_strip s \<noteq> [] then Some ''ok'' else vs s)"
  let ?res = "(\<lambda>s. if s \<in> set p then Some s else ft s,
               \<lambda>s. if s \<in> set p
                    then Some (if py_strip s = [] then ''fallback_due_to_validation'' else ''ok'')
                    else vs s)"
  obtain out st' where c: "call_openai_batch svc w p fb = Inr (out, (st', snd w @ [(p, fb)]))"
    and o: "\<forall>s\<in>set p. out s = Some s"
    using call_identity [OF id] by blast
  let ?w1 = "(st', snd w @ [(p, fb)])"
  have v: "validate_pending out p ((ft, vs), [], []) = (?acc, ?q, map (issue_line out) ?q)"
    by (rule validate_pending_identity [OF o])
  have fb: "fallback_pending ?q ?acc = ?res"
    by (auto simp: fallback_pending_result fun_eq_iff)
  have q_iff: "?q \<noteq> [] \<longleftrightarrow> (\<exists>s\<in>set p. py_strip s = [])"
    by (auto simp: filter_empty_conv)
  show ?thesis
  proof (cases "?q \<noteq> [] \<and> attempt < R")
    case True
    then have qne: "?q \<noteq> []" and lt: "attempt < R" by simp_all
    have "\<forall>s\<in>set ?q. py_strip s = []" by simp
    from attempt_loop_blank [OF id qne this, of "attempt + 1" R fmt
          "Some (fmt (map (issue_line out) ?q))" ?acc ?w1] lt
    obtain w' where
      r: "attempt_loop fmt R svc (attempt + 1) ?q (Some (fmt (map (issue_line out) ?q))) ?acc ?w1
            = Inr (fallback_pending ?q ?acc, w')"
      and l: "length (requests w') = length (requests ?w1) + (R + 1 - (attempt + 1))"
      by auto
    have "attempt_loop fmt R svc attempt p fb (ft, vs) w = Inr (?res, w')"
      by (subst attempt_loop.simps)
        (use r lt qne in \<open>simp add: ne c v fb del: fallback_pending.simps\<close>)
    moreover have "length (requests w') = length (requests w)
                + (if \<exists>s\<in>set p. py_strip s = [] then R + 1 - attempt else 1)"
      using l lt qne q_iff by (simp add: requests_def)
    ultimately show ?thesis by blast
  next
    case False
    have a: "attempt < Suc R" using le by simp
    have "attempt_loop fmt R svc attempt p fb (ft, vs) w = Inr (?res, ?w1)"
      by (subst attempt_loop.simps)
        (use False a in \<open>auto simp add: ne c v fb simp del: fallback_pending.simps\<close>)
    moreover have "length (requests ?w1) = length (requests w)
                + (if \<exists>s\<in>set p. py_strip s = [] then R + 1 - attempt else 1)"
    proof (cases "?q = []")
      case True
      with q_iff show ?thesis by (simp add: requests_def)
    next
      case False
      with \<open>\<not> (?q \<noteq> [] \<and> attempt < R)\<close> le have "attempt = R" by simp
      with False q_iff show ?thesis by (simp add: requests_def)
    qed
    ultimately show ?thesis by blast
  qed
qed

lemma map_of_zip_self: "s \<in> set xs \<Longrightarrow> map_of (zip xs xs) s = Some s"
  by (induction xs) auto

lemma returns_identity_echo: "returns_identity echo_service"
  by (simp add: returns_identity_def echo_service_def map_of_zip_self)

text \<open>
  C1, as the code has it. Under a service that maps every string it is sent to itself,
  every candidate of a batch ends with its source as target and status \<open>fallback\<close>.
  A source that is not blank validates against itself at the first attempt, with
  validation \<open>ok\<close>; only a blank source fails every attempt and ends with
  \<open>fallback_due_to_validation\<close>. The batch costs \<open>MAX_RETRIES + 1\<close> requests when it
  holds a blank source and one request otherwise.
\<close>

theorem identity_service_batch:
  assumes "returns_identity svc" and "batch \<noteq> []"
  shows "\<exists>acc' w'.
           translate_batch feedback_text MAX_RETRIES svc batch acc w = Inr (acc', w')
         \<and> length (requests w') = length (requests w)
               + (if \<exists>s\<in>set batch. py_strip s = [] then MAX_RETRIES + 1 else 1)
         \<and> (\<forall>c. cand_source c \<in> set batch \<longrightarrow>
               row_target (make_row acc' c) = cand_source c
             \<and> row_status (make_row acc' c) = ''fallback''
             \<and> row_validation (make_row acc' c) =
                 (if py_strip (cand_source c) = [] then ''fallback_due_to_validation'' else ''ok''))"
proof -
  obtain ft vs where acc: "acc = (ft, vs)" by (cases acc)
  from attempt_loop_identity [OF assms, of 0 MAX_RETRIES feedback_text None ft vs w]
  obtain w' where
    r: "attempt_loop feedback_text MAX_RETRIES svc 0 batch None (ft, vs) w =
          Inr ((\<lambda>s. if s \<in> set batch then Some s else ft s,
                \<lambda>s. if s \<in> set batch
                     then Some (if py_strip s = [] then ''fallback_due_to_validation'' else ''ok'')
                     else vs s), w')"
    and l: "length (requests w') = length (requests w)
              + (if \<exists>s\<in>set batch. py_strip s = [] then MAX_RETRIES + 1 - 0 else 1)"
    by auto
  let ?res = "(\<lambda>s. if s \<in> set batch then Some s else ft s,
               \<lambda>s. if s \<in> set batch
                    then Some (if py_strip s = [] then ''fallback_due_to_validation'' else ''ok'')
                    else vs s)"
  show ?thesis
  proof (intro exI conjI)
    show "translate_batch feedback_text MAX_RETRIES svc batch acc w = Inr (?res, w')"
      by (simp add: translate_batch_def acc r)
    show "length (requests w') = length (requests w)
               + (if \<exists>s\<in>set batch. py_strip s = [] then MAX_RETRIES + 1 else 1)"
      using l by simp
    show "\<forall>c. cand_source c \<in> set batch \<longrightarrow>
               row_target (make_row ?res c) = cand_source c
             \<and> row_status (make_row ?res c) = ''fallback''
             \<and> row_validation (make_row ?res c) =
                 (if py_strip (cand_source c) = [] then ''fallback_due_to_validation'' else ''ok'')"
      by (simp add: make_row_def Let_def)
  qed
qed

theorem identity_service_batch_witness:
  "returns_identity echo_service
   \<and> (\<exists>acc' w'.
         translate_batch feedback_text MAX_RETRIES echo_service [''Cancel'', ''  '']
           (Map.empty, Map.empty) ((), []) = Inr (acc', w')
       \<and> length (requests w') = 3
       \<and> row_validation (make_row acc' \<lparr>cand_source = ''Cancel'', cand_contexts = []\<rparr>) = ''ok''
       \<and> row_validation (make_row acc' \<lparr>cand_source = ''  '', cand_contexts = []\<rparr>)
           = ''fallback_due_to_validation'')"
proof -
  have b: "py_strip ''  '' = []" by code_simp
  have c: "py_strip ''Cancel'' \<noteq> []" by code_simp
  have ne: "[''Cancel'', ''  ''] \<noteq> []" by simp
  from identity_service_batch [OF returns_identity_echo ne, of "(Map.empty, Map.empty)" "((), [])"]
  obtain acc' w' where
    r: "translate_batch feedback_text MAX_RETRIES echo_service [''Cancel'', ''  '']
           (Map.empty, Map.empty) ((), []) = Inr (acc', w')"
    and l: "length (requests w') = length (requests ((), []))
               + (if \<exists>s\<in>set [''Cancel'', ''  '']. py_strip s = [] then MAX_RETRIES + 1 else 1)"
    and rows: "\<forall>c. cand_source c \<in> set [''Cancel'', ''  ''] \<longrightarrow>
               row_target (make_row acc' c) = cand_source c
             \<and> row_status (make_row acc' c) = ''fallback''
             \<and> row_validation (make_row acc' c) =
                 (if py_strip (cand_source c) = [] then ''fallback_due_to_validation'' else ''ok'')"
    by blast
  from l b have "length (requests w') = 3"
    by (simp add: requests_def MAX_RETRIES_def)
  moreover from rows [rule_format, of "\<lparr>cand_source = ''Cancel'', cand_contexts = []\<rparr>"] c
  have "row_validation (make_row acc' \<lparr>cand_source = ''Cancel'', cand_contexts = []\<rparr>) = ''ok''"
    by simp
  moreover from rows [rule_format, of "\<lparr>cand_source = ''  '', cand_contexts = []\<rparr>"] b
  have "row_validation (make_row acc' \<lparr>cand_source = ''  '', cand_contexts = []\<rparr>)
           = ''fallback_due_to_validation''"
    by simp
  ultimately show ?thesis using r returns_identity_echo by blast
qed

text \<open>
  The echo service on the one candidate \<open>Cancel\<close>: one request, validation \<open>ok\<close>.
\<close>

theorem identity_service_counterexample:
  "returns_identity echo_service
   \<and> translate_candidates echo_service ((), [])
       [\<lparr>cand_source = ''Cancel'', cand_contexts = []\<rparr>]
     = Inr ([\<lparr>row_source = ''Cancel'', row_target = ''Cancel'', row_status = ''fallback'',
              row_validation = ''ok'', row_contexts = []\<rparr>],
            ((), [([''Cancel''], None)]))"
proof -
  have v: "validate_translation ''Cancel'' ''Cancel'' = (True, ''ok'')" by code_simp
  have ch: "chunked [''Cancel''] BATCH_SIZE = [[''Cancel'']]"
    by (simp add: BATCH_SIZE_def)
  have "translate_candidates echo_service ((), [])
       [\<lparr>cand_source = ''Cancel'', cand_contexts = []\<rparr>]
     = Inr ([\<lparr>row_source = ''Cancel'', row_target = ''Cancel'', row_status = ''fallback'',
              row_validation = ''ok'', row_contexts = []\<rparr>],
            ((), [([''Cancel''], None)]))"
    by (simp add: translate_candidates_def ch translate_batch_def attempt_loop.simps
        call_openai_batch_def echo_service_def v make_row_def Let_def MAX_RETRIES_def
        BATCH_SIZE_def)
  with returns_identity_echo show ?thesis by simp
qed

text \<open>
  C2, as the code has it. Within one attempt, a pending source that the returned dict
  has no value for gets itself as target. That pair validates, and the source is
  finalized with validation \<open>ok\<close>, unless the source is blank (empty or whitespace
  only); a blank source stays pending, and its issue line carries the reason
  \<open>empty translation\<close>.
\<close>

theorem missing_value_identity:
  assumes "source \<in> set pending" and "translated source = None"
  shows "(source \<in> set (fst (snd (validate_pending translated pending (acc, [], []))))
            \<longleftrightarrow> py_strip source = [])
       \<and> (py_strip source \<noteq> [] \<longrightarrow>
            fst (fst (validate_pending translated pending (acc, [], []))) source = Some source
          \<and> snd (fst (validate_pending translated pending (acc, [], []))) source = Some ''ok'')
       \<and> (py_strip source = [] \<longrightarrow>
            source @ '' -> empty translation''
              \<in> set (snd (snd (validate_pending translated pending (acc, [], [])))))"
proof -
  obtain ft vs where acc: "acc = (ft, vs)" by (cases acc)
  have t: "returned_target translated source = source"
    using assms(2) by (simp add: returned_target_def)
  have p: "passes translated source \<longleftrightarrow> py_strip source \<noteq> []"
    by (simp add: passes_def t validate_translation_same)
  have i: "py_strip source = [] \<Longrightarrow> issue_line translated source = source @ '' -> empty translation''"
    by (simp add: issue_line_def t validate_translation_same)
  show ?thesis
    unfolding acc validate_pending_result using assms(1) p t i
    by (auto simp: image_iff intro!: bexI [of _ source])
qed

theorem missing_value_identity_witness:
  "py_strip ''  '' = [] \<and> py_strip ''Cancelar'' \<noteq> []
   \<and> ''  '' \<in> set (fst (snd (validate_pending Map.empty [''Cancelar'', ''  '']
                                ((Map.empty, Map.empty), [], []))))
   \<and> ''   -> empty translation''
        \<in> set (snd (snd (validate_pending Map.empty [''Cancelar'', ''  '']
                                ((Map.empty, Map.empty), [], []))))
   \<and> ''Cancelar'' \<notin> set (fst (snd (validate_pending Map.empty [''Cancelar'', ''  '']
                                ((Map.empty, Map.empty), [], []))))
   \<and> snd (fst (validate_pending Map.empty [''Cancelar'', ''  '']
                                ((Map.empty, Map.empty), [], []))) ''Cancelar'' = Some ''ok''"
proof -
  have b: "py_strip ''  '' = []" by code_simp
  have c: "py_strip ''Cancelar'' \<noteq> []" by code_simp
  have m1: "''  '' \<in> set [''Cancelar'', ''  '']" by simp
  have m2: "''Cancelar'' \<in> set [''Cancelar'', ''  '']" by simp
  have n: "(Map.empty :: string \<rightharpoonup> string) ''  '' = None"
          "(Map.empty :: string \<rightharpoonup> string) ''Cancelar'' = None" by simp_all
  from missing_value_identity [OF m1 n(1), of "(Map.empty, Map.empty)"]
       missing_value_identity [OF m2 n(2), of "(Map.empty, Map.empty)"] b c
  show ?thesis by simp
qed

text \<open>
  A service that returns the empty dict, on the one candidate \<open>Cancelar\<close>: the source
  is finalized at the first attempt with validation \<open>ok\<close>, and nothing stays pending.
\<close>

theorem missing_value_counterexample:
  "lwo_translate_candidates silent_service ((), [])
       [\<lparr>cand_source = ''Cancelar'', cand_contexts = []\<rparr>]
     = Inr ([\<lparr>row_source = ''Cancelar'', row_target = ''Cancelar'', row_status = ''fallback'',
              row_validation = ''ok'', row_contexts = []\<rparr>],
            ((), [([''Cancelar''], None)]))
   \<and> fst (snd (validate_pending Map.empty [''Cancelar''] ((Map.empty, Map.empty), [], []))) = []
   \<and> snd (fst (validate_pending Map.empty [''Cancelar''] ((Map.empty, Map.empty), [], [])))
        ''Cancelar'' = Some ''ok''"
proof -
  have v: "validate_translation ''Cancelar'' ''Cancelar'' = (True, ''ok'')" by code_simp
  have "lwo_translate_candidates silent_service ((), [])
       [\<lparr>cand_source = ''Cancelar'', cand_contexts = []\<rparr>]
     = Inr ([\<lparr>row_source = ''Cancelar'', row_target = ''Cancelar'', row_status = ''fallback'',
              row_validation = ''ok'', row_contexts = []\<rparr>],
            ((), [([''Cancelar''], None)]))"
    by (simp add: lwo_translate_candidates_def translate_batch_def attempt_loop.simps
        call_openai_batch_def silent_service_def v make_row_def Let_def MAX_RETRIES_def
        lwo_BATCH_SIZE_def)
  then show ?thesis by (simp add: v Let_def)
qed

section \<open>Aggregator: properties\<close>

lemma group_append_keys:
  "distinct (map fst grouped) \<Longrightarrow> distinct (map fst (group_append grouped item))"
  by (auto simp: group_append_def distinct_update map_of_eq_None_iff split: prod.splits option.splits)

lemma foldl_group_append_keys:
  "distinct (map fst grouped) \<Longrightarrow> distinct (map fst (foldl group_append grouped items))"
  by (induction items arbitrary: grouped) (simp_all add: group_append_keys)

lemma add_keys:
  "distinct (map fst buckets) \<Longrightarrow> distinct (map fst (add source_lang buckets item))"
  by (auto simp: add_def group_append_keys split: prod.splits)

lemma foldl_add_keys:
  "distinct (map fst buckets) \<Longrightarrow> distinct (map fst (foldl (add source_lang) buckets items))"
  by (induction items arbitrary: buckets) (simp_all add: add_keys)

lemma inj_ctx_key: "inj ctx_key"
  by (rule injI) (simp add: ctx_key_def)

lemma sort_enumeration:
  assumes "enumerates iter" and "enumerates iter'"
  shows "sort_key ctx_key (iter contexts) = sort_key ctx_key (iter' contexts)"
proof -
  from assms have "mset (iter contexts) = mset (iter' contexts)"
    by (simp add: enumerates_def set_eq_iff_mset_eq_distinct [symmetric])
  moreover have "inj_on ctx_key (set (iter contexts))"
    using inj_ctx_key by (rule inj_on_subset) simp
  moreover have "sorted (map ctx_key (sort_key ctx_key (iter' contexts)))"
    by (rule sorted_sort_key)
  ultimately show ?thesis
    by (metis mset_sort sort_key_inj_key_eq)
qed

lemma build_candidates_sorted:
  assumes "build_candidates iter scanned lines = Inr (cands, by_key)"
  shows "sorted (map (\<lambda>c. py_lower (cand_source c)) cands)"
proof -
  from assms obtain grouped where
    "cands = map (\<lambda>(source, contexts).
                      \<lparr>cand_source = source, cand_contexts = sort_key ctx_key (iter contexts)\<rparr>)
                 (sort_key (\<lambda>item. py_lower (fst item)) grouped)"
    by (auto simp: build_candidates_def Let_def split: sum.splits prod.splits)
  then have "map (\<lambda>c. py_lower (cand_source c)) cands
             = map (\<lambda>item. py_lower (fst item)) (sort_key (\<lambda>item. py_lower (fst item)) grouped)"
    by (simp add: case_prod_unfold comp_def)
  then show ?thesis by (simp only: sorted_sort_key)
qed

lemma extract_candidates_sorted:
  "sorted_wrt (<) (map cand_source (extract_candidates scanned source_lang))"
proof -
  let ?b = "foldl (add source_lang) [] scanned"
  have m: "map cand_source (extract_candidates scanned source_lang) = map fst (sort_key fst ?b)"
    by (simp add: extract_candidates_def case_prod_unfold comp_def)
  have "distinct (map fst ?b)" by (rule foldl_add_keys) simp
  then have "distinct (map fst (sort_key fst ?b))"
    by (metis distinct_map distinct_sort set_sort)
  moreover have "sorted (map fst (sort_key fst ?b))" by (rule sorted_sort_key)
  ultimately show ?thesis
    unfolding m by (simp add: strict_sorted_iff)
qed

lemma build_candidates_iter:
  assumes "enumerates iter" and "enumerates iter'"
  shows "build_candidates iter scanned lines = build_candidates iter' scanned lines"
  by (simp add: build_candidates_def Let_def sort_enumeration [OF assms]
      split: sum.splits prod.splits)

text \<open>
  C3, as the code has it. \<open>build_candidates\<close> returns the candidates sorted by the
  lower-cased source text, and whatever order the sets of contexts are iterated in, it
  returns the same list. \<open>extract_candidates\<close> returns them sorted by the source text
  itself, by code point, in strictly increasing order, so that its order is case
  sensitive.
\<close>

theorem candidates_order:
  "(\<forall>cands by_key. build_candidates iter scanned lines = Inr (cands, by_key) \<longrightarrow>
        sorted (map (\<lambda>c. py_lower (cand_source c)) cands))
   \<and> sorted_wrt (<) (map cand_source (extract_candidates scanned source_lang))
   \<and> (enumerates iter \<and> enumerates iter' \<longrightarrow>
        build_candidates iter scanned lines = build_candidates iter' scanned lines)"
  using build_candidates_sorted extract_candidates_sorted build_candidates_iter by blast

theorem candidates_order_witness:
  "enumerates (remdups :: Context list \<Rightarrow> Context list)
   \<and> enumerates (\<lambda>xs :: Context list. rev (remdups xs))
   \<and> (\<exists>cands by_key.
         build_candidates remdups
           [(''b'', sample_context 3), (''A'', sample_context 2), (''a'', sample_context 1)]
           sample_manifest = Inr (cands, by_key)
       \<and> map cand_source cands = [''A'', ''a'', ''Always'', ''b'', ''When'']
       \<and> sorted (map (\<lambda>c. py_lower (cand_source c)) cands)
       \<and> build_candidates (\<lambda>xs. rev (remdups xs))
           [(''b'', sample_context 3), (''A'', sample_context 2), (''a'', sample_context 1)]
           sample_manifest = Inr (cands, by_key))"
proof -
  let ?scanned = "[(''b'', sample_context 3), (''A'', sample_context 2), (''a'', sample_context 1)]"
  define r where "r = build_candidates remdups ?scanned sample_manifest"
  have e1: "enumerates (remdups :: Context list \<Rightarrow> Context list)"
    by (simp add: enumerates_def)
  have e2: "enumerates (\<lambda>xs :: Context list. rev (remdups xs))"
    by (simp add: enumerates_def)
  have "\<not> isl r" unfolding r_def by code_simp
  then have b: "build_candidates remdups ?scanned sample_manifest
                  = Inr (fst (projr r), snd (projr r))"
    by (cases r) (simp_all add: r_def)
  have m: "map cand_source (fst (projr r)) = [''A'', ''a'', ''Always'', ''b'', ''When'']"
    unfolding r_def by code_simp
  note co = candidates_order [of remdups ?scanned sample_manifest "''en''" "\<lambda>xs. rev (remdups xs)"]
  from co have "\<forall>cands by_key.
        build_candidates remdups ?scanned sample_manifest = Inr (cands, by_key) \<longrightarrow>
        sorted (map (\<lambda>c. py_lower (cand_source c)) cands)"
    by (rule conjunct1)
  then have s: "sorted (map (\<lambda>c. py_lower (cand_source c)) (fst (projr r)))"
    using b by (elim allE impE) assumption+
  from co have "enumerates (remdups :: Context list \<Rightarrow> Context list)
        \<and> enumerates (\<lambda>xs :: Context list. rev (remdups xs)) \<longrightarrow>
        build_candidates remdups ?scanned sample_manifest
          = build_candidates (\<lambda>xs. rev (remdups xs)) ?scanned sample_manifest"
    by (elim conjE)
  with e1 e2 b have "build_candidates (\<lambda>xs. rev (remdups xs)) ?scanned sample_manifest
           = Inr (fst (projr r), snd (projr r))"
    by simp
  note s this
  with b m have "\<exists>cands by_key.
         build_candidates remdups ?scanned sample_manifest = Inr (cands, by_key)
       \<and> map cand_source cands = [''A'', ''a'', ''Always'', ''b'', ''When'']
       \<and> sorted (map (\<lambda>c. py_lower (cand_source c)) cands)
       \<and> build_candidates (\<lambda>xs. rev (remdups xs)) ?scanned sample_manifest = Inr (cands, by_key)"
    by (intro exI [of _ "fst (projr r)"] exI [of _ "snd (projr r)"] conjI)
  with e1 e2 show ?thesis by (intro conjI)
qed

text \<open>
  \<open>extract_candidates\<close> on the sources \<open>B\<close> and \<open>a\<close>: \<open>B\<close> comes first, though
  \<open>a\<close> is before \<open>b\<close>.
\<close>

theorem candidates_order_counterexample:
  "map cand_source
     (extract_candidates [(''B'', sample_context 1), (''a'', sample_context 2)] ''en'')
     = [''B'', ''a'']
   \<and> \<not> sorted (map py_lower [''B'', ''a''])"
  by code_simp

section \<open>Catalog Merger: properties\<close>

lemma map_of_insort_key_fst:
  "map_of (insort_key (\<lambda>item. g (fst item)) x xs) = map_of (x # xs)"
proof (induction xs)
  case Nil
  show ?case by simp
next
  case (Cons y ys)
  show ?case
  proof (cases "g (fst x) \<le> g (fst y)")
    case True
    then show ?thesis by simp
  next
    case False
    then have "fst x \<noteq> fst y" by auto
    with False Cons show ?thesis
      by (cases x, cases y) (auto simp: fun_eq_iff)
  qed
qed

lemma map_of_sort_key_fst:
  "map_of (sort_key (\<lambda>item. g (fst item)) xs) = map_of xs"
proof (induction xs)
  case Nil
  show ?case by simp
next
  case (Cons x xs)
  have "map_of (sort_key (\<lambda>item. g (fst item)) (x # xs))
        = map_of (x # sort_key (\<lambda>item. g (fst item)) xs)"
    by (simp add: map_of_insort_key_fst del: map_of.simps)
  with Cons show ?case by (cases x) (simp add: fun_eq_iff)
qed

lemma dict_setdefault_map_of:
  "dict_setdefault d k v = (d', x) \<Longrightarrow> map_of d' k = Some x \<and> (\<forall>k'. k' \<noteq> k \<longrightarrow> map_of d' k' = map_of d k')"
  by (auto simp: dict_setdefault_def map_add_def split: option.splits)

lemma dict_setdefault_keys:
  "dict_setdefault d k v = (d', x) \<Longrightarrow> set (map fst d) \<subseteq> set (map fst d')"
  by (auto simp: dict_setdefault_def split: option.splits)

lemma dict_setdefault_present:
  "map_of d k = Some x \<Longrightarrow> dict_setdefault d k v = (d, x)"
  by (simp add: dict_setdefault_def)

lemma merge_entry_frame:
  assumes "merge_entry language sd (k, v) = Inr (sd', n)" and "k' \<noteq> k"
  shows "map_of sd' k' = map_of sd k'"
proof -
  obtain sd0 entry where s: "dict_setdefault sd k (JObj []) = (sd0, entry)"
    by (cases "dict_setdefault sd k (JObj [])")
  from assms(1) s obtain ed' where "sd' = AList.update k (JObj ed') sd0"
    by (auto simp: merge_entry_def split: json.splits sum.splits bool.splits)
  with dict_setdefault_map_of [OF s] assms(2) show ?thesis
    by (simp add: update_conv')
qed

lemma merge_entries_frame:
  assumes "merge_entries language translations (sd, c) = Inr (sd', c')"
    and "k' \<notin> fst ` set translations"
  shows "map_of sd' k' = map_of sd k'"
  using assms
proof (induction "translations" arbitrary: sd c)
  case Nil
  then show ?case by simp
next
  case (Cons item rest)
  obtain k v where item: "item = (k, v)" by (cases item)
  from Cons.prems(1) obtain sd1 n where
    m: "merge_entry language sd (k, v) = Inr (sd1, n)"
    and r: "merge_entries language rest (sd1, c + n) = Inr (sd', c')"
    by (auto simp: item split: sum.splits)
  from Cons.prems(2) have "k' \<noteq> k" "k' \<notin> fst ` set rest" by (auto simp: item)
  with Cons.IH [OF r] merge_entry_frame [OF m] show ?case by simp
qed

lemma merge_localization_settled:
  assumes "map_of ed ''localizations'' = Some (JObj ld)"
    and "map_of ld language = Some (string_unit v)"
  shows "merge_localization language v ed = Inr (ed, 0)"
proof -
  have k: "language \<in> set (map fst ld)"
    using assms(2) by (metis image_set map_of_eq_None_iff option.distinct(1))
  have p: "previous_value ld language = Inr (JStr v)"
    using assms(2) k by (simp add: previous_value_def json_get_def string_unit_def)
  show ?thesis
    using assms p
    by (simp add: merge_localization_def dict_setdefault_present update_triv)
qed

lemma merge_entry_settled:
  assumes "settled language sd k v"
  shows "merge_entry language sd (k, v) = Inr (sd, 0)"
proof -
  from assms obtain ed ld where
    e: "map_of sd k = Some (JObj ed)"
    and x: "''extractionState'' \<in> set (map fst ed)"
    and l: "map_of ed ''localizations'' = Some (JObj ld)"
    and u: "map_of ld language = Some (string_unit v)"
    unfolding settled_def by blast
  show ?thesis
    using e x merge_localization_settled [OF l u]
    by (simp add: merge_entry_def dict_setdefault_present update_triv)
qed

lemma merge_entries_settled:
  assumes "\<forall>(k, v)\<in>set trs. settled language sd k v"
  shows "merge_entries language trs (sd, c) = Inr (sd, c)"
  using assms
proof (induction trs arbitrary: c)
  case Nil
  show ?case by simp
next
  case (Cons item rest)
  obtain k v where item: "item = (k, v)" by (cases item)
  from Cons.prems have "settled language sd k v" and "\<forall>(k, v)\<in>set rest. settled language sd k v"
    by (simp_all add: item)
  with Cons.IH [of c] show ?case
    by (simp add: item merge_entry_settled)
qed

lemma merge_localization_result:
  assumes "merge_localization language v ed = Inr (ed', n)"
  shows "\<exists>ld. map_of ed' ''localizations'' = Some (JObj ld)
            \<and> map_of ld language = Some (string_unit v)
            \<and> set (map fst ed) \<subseteq> set (map fst ed')"
proof -
  obtain ed0 loc where s: "dict_setdefault ed ''localizations'' (JObj []) = (ed0, loc)"
    by (cases "dict_setdefault ed ''localizations'' (JObj [])")
  from assms s obtain ld where
    "ed' = AList.update ''localizations'' (JObj (AList.update language (string_unit v) ld)) ed0"
    by (auto simp: merge_localization_def split: json.splits sum.splits bool.splits)
  moreover have "set (map fst ed) \<subseteq> set (map fst ed0)"
    using s by (rule dict_setdefault_keys)
  ultimately show ?thesis
    by (auto simp: update_conv' dom_update)
qed

lemma merge_entry_result:
  assumes "merge_entry language sd (k, v) = Inr (sd', n)"
  shows "settled language sd' k v"
proof -
  obtain sd0 entry where s: "dict_setdefault sd k (JObj []) = (sd0, entry)"
    by (cases "dict_setdefault sd k (JObj [])")
  from assms s obtain ed ed' where
    ml: "merge_localization language v
           (if ''extractionState'' \<notin> set (map fst ed)
            then AList.update ''extractionState'' (JStr ''manual'') ed else ed) = Inr (ed', n)"
    and sd': "sd' = AList.update k (JObj ed') sd0"
    by (auto simp: merge_entry_def split: json.splits sum.splits bool.splits)
  let ?ed1 = "if ''extractionState'' \<notin> set (map fst ed)
            then AList.update ''extractionState'' (JStr ''manual'') ed else ed"
  have "''extractionState'' \<in> set (map fst ?ed1)"
    by (auto simp: dom_update)
  with merge_localization_result [OF ml] obtain ld where
    "map_of ed' ''localizations'' = Some (JObj ld)"
    "map_of ld language = Some (string_unit v)"
    "''extractionState'' \<in> set (map fst ed')"
    by blast
  then show ?thesis
    unfolding settled_def sd' by (auto simp: update_conv')
qed

lemma settled_cong:
  "map_of sd' k = map_of sd k \<Longrightarrow> settled language sd' k v = settled language sd k v"
  by (simp add: settled_def)

lemma merge_entries_result:
  assumes "merge_entries language trs (sd, c) = Inr (sd', c')"
    and "distinct (map fst trs)"
  shows "\<forall>(k, v)\<in>set trs. settled language sd' k v"
  using assms
proof (induction trs arbitrary: sd c)
  case Nil
  show ?case by simp
next
  case (Cons item rest)
  obtain k v where item: "item = (k, v)" by (cases item)
  from Cons.prems(1) obtain sd1 n where
    m: "merge_entry language sd (k, v) = Inr (sd1, n)"
    and r: "merge_entries language rest (sd1, c + n) = Inr (sd', c')"
    by (auto simp: item split: sum.splits)
  from Cons.prems(2) have d: "distinct (map fst rest)" and nk: "k \<notin> fst ` set rest"
    by (simp_all add: item)
  have "map_of sd' k = map_of sd1 k"
    using r nk by (rule merge_entries_frame)
  with merge_entry_result [OF m] settled_cong [of sd' k sd1 language v]
  have "settled language sd' k v"
    by blast
  with Cons.IH [OF r d] show ?case by (simp add: item)
qed

lemma update_catalog_Inr:
  assumes "update_catalog existing language trs = Inr (out, n)"
  obtains sd sd' where
    "sd = catalog_strings (case existing of Some c \<Rightarrow> c | None \<Rightarrow> JObj [])"
    "merge_entries language trs (sd, 0) = Inr (sd', n)"
    "out = JObj [(''sourceLanguage'', JStr ''en''),
                 (''strings'', JObj (sort_key (\<lambda>item. py_lower (fst item)) sd')),
                 (''version'', JStr ''1.0'')]"
  using assms
  by (auto simp: update_catalog_def Let_def catalog_strings_def catalog_field_def
      dict_setdefault_def update_conv' map_add_def
      split: option.splits json.splits sum.splits if_splits)

lemma update_catalog_sorted_input:
  assumes "merge_entries language trs (S, 0) = Inr (S, 0)"
    and "sort_key (\<lambda>item. py_lower (fst item)) S = S"
  shows "update_catalog
           (Some (JObj [(''sourceLanguage'', JStr ''en''), (''strings'', JObj S),
                        (''version'', JStr ''1.0'')])) language trs
         = Inr (JObj [(''sourceLanguage'', JStr ''en''), (''strings'', JObj S),
                      (''version'', JStr ''1.0'')], 0)"
proof -
  have d: "dict_setdefault [(''sourceLanguage'', JStr ''en''), (''strings'', JObj S),
                        (''version'', JStr ''1.0'')] ''strings'' (JObj [])
           = ([(''sourceLanguage'', JStr ''en''), (''strings'', JObj S),
                        (''version'', JStr ''1.0'')], JObj S)"
    by (simp add: dict_setdefault_def)
  show ?thesis
    unfolding update_catalog_def Let_def option.case json.case d fst_conv
    by (simp add: assms)
qed

text \<open>
  C5. Merging the same translations a second time, into the catalog that the first merge
  wrote, writes the same catalog and returns a count of zero. The translations are a
  dict: their keys are distinct.
\<close>

theorem update_catalog_idempotent:
  assumes "update_catalog existing language trs = Inr (out, n)"
    and "distinct (map fst trs)"
  shows "update_catalog (Some out) language trs = Inr (out, 0)"
proof -
  from assms(1) obtain sd sd' where
    m: "merge_entries language trs (sd, 0) = Inr (sd', n)"
    and out: "out = JObj [(''sourceLanguage'', JStr ''en''),
                 (''strings'', JObj (sort_key (\<lambda>item. py_lower (fst item)) sd')),
                 (''version'', JStr ''1.0'')]"
    by (rule update_catalog_Inr)
  define S where "S = sort_key (\<lambda>item. py_lower (fst item)) sd'"
  have mo: "\<And>k. map_of S k = map_of sd' k"
    unfolding S_def by (simp add: map_of_sort_key_fst)
  have "\<forall>(k, v)\<in>set trs. settled language sd' k v"
    using m assms(2) by (rule merge_entries_result)
  then have "\<forall>(k, v)\<in>set trs. settled language S k v"
    using settled_cong [OF mo] by blast
  then have m2: "merge_entries language trs (S, 0) = Inr (S, 0)"
    by (rule merge_entries_settled)
  have srt: "sort_key (\<lambda>item. py_lower (fst item)) S = S"
    unfolding S_def by (rule sort_key_id_if_sorted) (rule sorted_sort_key)
  show ?thesis
    unfolding out S_def [symmetric] using m2 srt by (rule update_catalog_sorted_input)
qed

theorem update_catalog_idempotent_witness:
  "distinct (map fst [(''Bye'', ''Chao''), (''cancel'', ''Cancelar'')])
   \<and> update_catalog (Some sample_catalog) ''es'' [(''Bye'', ''Chao''), (''cancel'', ''Cancelar'')]
       = Inr (JObj [(''sourceLanguage'', JStr ''en''),
                    (''strings'',
                     JObj [(''Bye'', JObj [(''localizations'', JObj [(''es'', string_unit ''Chao'')]),
                                           (''extractionState'', JStr ''manual'')]),
                           (''cancel'', JObj [(''extractionState'', JStr ''manual''),
                                              (''localizations'',
                                               JObj [(''es'', string_unit ''Cancelar'')])]),
                           (''Hello'', JObj [(''comment'', JStr ''greeting'')])]),
                    (''version'', JStr ''1.0'')], 2)
   \<and> update_catalog
         (Some (JObj [(''sourceLanguage'', JStr ''en''),
                    (''strings'',
                     JObj [(''Bye'', JObj [(''localizations'', JObj [(''es'', string_unit ''Chao'')]),
                                           (''extractionState'', JStr ''manual'')]),
                           (''cancel'', JObj [(''extractionState'', JStr ''manual''),
                                              (''localizations'',
                                               JObj [(''es'', string_unit ''Cancelar'')])]),
                           (''Hello'', JObj [(''comment'', JStr ''greeting'')])]),
                    (''version'', JStr ''1.0'')]))
         ''es'' [(''Bye'', ''Chao''), (''cancel'', ''Cancelar'')]
       = Inr (JObj [(''sourceLanguage'', JStr ''en''),
                    (''strings'',
                     JObj [(''Bye'', JObj [(''localizations'', JObj [(''es'', string_unit ''Chao'')]),
                                           (''extractionState'', JStr ''manual'')]),
                           (''cancel'', JObj [(''extractionState'', JStr ''manual''),
                                              (''localizations'',
                                               JObj [(''es'', string_unit ''Cancelar'')])]),
                           (''Hello'', JObj [(''comment'', JStr ''greeting'')])]),
                    (''version'', JStr ''1.0'')], 0)"
proof -
  let ?trs = "[(''Bye'', ''Chao''), (''cancel'', ''Cancelar'')]"
  let ?out = "JObj [(''sourceLanguage'', JStr ''en''),
                    (''strings'',
                     JObj [(''Bye'', JObj [(''localizations'', JObj [(''es'', string_unit ''Chao'')]),
                                           (''extractionState'', JStr ''manual'')]),
                           (''cancel'', JObj [(''extractionState'', JStr ''manual''),
                                              (''localizations'',
                                               JObj [(''es'', string_unit ''Cancelar'')])]),
                           (''Hello'', JObj [(''comment'', JStr ''greeting'')])]),
                    (''version'', JStr ''1.0'')]"
  have d: "distinct (map fst ?trs)" by simp
  have u: "update_catalog (Some sample_catalog) ''es'' ?trs = Inr (?out, 2)"
    by code_simp
  from update_catalog_idempotent [OF u d] d u show ?thesis by simp
qed

text \<open>
  C10. The catalog that \<open>update_catalog\<close> writes has the source language \<open>en\<close> and the
  version \<open>1.0\<close>, whatever the catalog read had there, and at every key that is not a
  key of the translations its strings are those of the catalog read.
\<close>

theorem update_catalog_frame:
  assumes "update_catalog (Some c) language trs = Inr (out, n)"
  shows "catalog_field out ''sourceLanguage'' = Some (JStr ''en'')
       \<and> catalog_field out ''version'' = Some (JStr ''1.0'')
       \<and> (\<forall>k. k \<notin> fst ` set trs \<longrightarrow>
             map_of (catalog_strings out) k = map_of (catalog_strings c) k)"
proof -
  from assms obtain sd sd' where
    sd: "sd = catalog_strings c"
    and m: "merge_entries language trs (sd, 0) = Inr (sd', n)"
    and out: "out = JObj [(''sourceLanguage'', JStr ''en''),
                 (''strings'', JObj (sort_key (\<lambda>item. py_lower (fst item)) sd')),
                 (''version'', JStr ''1.0'')]"
    by (rule update_catalog_Inr) simp
  have s: "catalog_strings out = sort_key (\<lambda>item. py_lower (fst item)) sd'"
    by (simp add: out catalog_strings_def catalog_field_def)
  have "\<forall>k. k \<notin> fst ` set trs \<longrightarrow> map_of (catalog_strings out) k = map_of (catalog_strings c) k"
    unfolding s map_of_sort_key_fst sd [symmetric]
    using merge_entries_frame [OF m] by blast
  then show ?thesis
    by (simp add: out catalog_field_def)
qed

theorem update_catalog_frame_witness:
  "catalog_field sample_catalog ''sourceLanguage'' = Some (JStr ''es'')
   \<and> catalog_field sample_catalog ''version'' = Some (JStr ''2.0'')
   \<and> ''Hello'' \<notin> fst ` set [(''Bye'', ''Chao''), (''cancel'', ''Cancelar'')]
   \<and> (\<exists>out n. update_catalog (Some sample_catalog) ''es''
                  [(''Bye'', ''Chao''), (''cancel'', ''Cancelar'')] = Inr (out, n)
        \<and> catalog_field out ''sourceLanguage'' = Some (JStr ''en'')
        \<and> catalog_field out ''version'' = Some (JStr ''1.0'')
        \<and> map_of (catalog_strings out) ''Hello'' = Some (JObj [(''comment'', JStr ''greeting'')]))"
proof -
  let ?trs = "[(''Bye'', ''Chao''), (''cancel'', ''Cancelar'')]"
  define r where "r = update_catalog (Some sample_catalog) ''es'' ?trs"
  have "\<not> isl r" unfolding r_def by code_simp
  then have u: "update_catalog (Some sample_catalog) ''es'' ?trs = Inr (fst (projr r), snd (projr r))"
    by (cases r) (simp_all add: r_def)
  have a: "catalog_field sample_catalog ''sourceLanguage'' = Some (JStr ''es'')"
    and b: "catalog_field sample_catalog ''version'' = Some (JStr ''2.0'')"
    and h: "map_of (catalog_strings sample_catalog) ''Hello''
              = Some (JObj [(''comment'', JStr ''greeting'')])"
    by (simp_all add: sample_catalog_def catalog_field_def catalog_strings_def)
  have nk: "''Hello'' \<notin> fst ` set ?trs" by simp
  note f = update_catalog_frame [OF u]
  from f have f1: "catalog_field (fst (projr r)) ''sourceLanguage'' = Some (JStr ''en'')"
    and f2: "catalog_field (fst (projr r)) ''version'' = Some (JStr ''1.0'')"
    by simp_all
  from f have "\<forall>k. k \<notin> fst ` set ?trs \<longrightarrow>
             map_of (catalog_strings (fst (projr r))) k = map_of (catalog_strings sample_catalog) k"
    by (elim conjE)
  then have "''Hello'' \<notin> fst ` set ?trs \<longrightarrow>
             map_of (catalog_strings (fst (projr r))) ''Hello''
               = map_of (catalog_strings sample_catalog) ''Hello''"
    by (rule spec)
  with nk h have f3: "map_of (catalog_strings (fst (projr r))) ''Hello''
                    = Some (JObj [(''comment'', JStr ''greeting'')])"
    by simp
  from u f1 f2 f3 have "\<exists>out n. update_catalog (Some sample_catalog) ''es'' ?trs = Inr (out, n)
        \<and> catalog_field out ''sourceLanguage'' = Some (JStr ''en'')
        \<and> catalog_field out ''version'' = Some (JStr ''1.0'')
        \<and> map_of (catalog_strings out) ''Hello'' = Some (JObj [(''comment'', JStr ''greeting'')])"
    by (intro exI [of _ "fst (projr r)"] exI [of _ "snd (projr r)"] conjI)
  with a b nk show ?thesis by (intro conjI)
qed

section \<open>The manifest precondition\<close>

lemma collect_plist_lines_keys:
  "length ns = length lines \<Longrightarrow>
   set (map fst (snd (collect_plist_lines (zip ns lines) (out, by_key))))
     = set (map fst by_key) \<union> set (manifest_keys lines)"
proof (induction lines arbitrary: ns out by_key)
  case Nil
  show ?case by (simp add: manifest_keys_def List.map_filter_simps)
next
  case (Cons line rest)
  then obtain n ns' where ns: "ns = n # ns'" and len: "length ns' = length rest"
    by (cases ns) auto
  show ?case
  proof (cases "PLIST_KEY_PATTERN_search line")
    case None
    with Cons.IH [OF len] show ?thesis
      by (simp add: ns manifest_keys_def List.map_filter_simps)
  next
    case (Some m)
    obtain k v where m: "m = (k, v)" by (cases m)
    show ?thesis
      using Cons.IH [OF len] Some
      by (auto simp: ns m manifest_keys_def List.map_filter_simps)
  qed
qed

lemma collect_plist_keys_missing:
  assumes "set (manifest_keys lines) \<noteq> required"
  shows "collect_plist_keys lines =
           Inl (RuntimeError
             (''Missing required InfoPlist usage description keys in project.pbxproj: ''
                @ repr_list (sorted_list_of_set (required - set (manifest_keys lines)))))"
proof -
  obtain out by_key where
    c: "collect_plist_lines (zip [1..int (length lines)] lines) ([], []) = (out, by_key)"
    by (cases "collect_plist_lines (zip [1..int (length lines)] lines) ([], [])")
  have "length [1..int (length lines)] = length lines" by simp
  from collect_plist_lines_keys [OF this, of "[]" "[]"] c
  have "set (map fst by_key) = set (manifest_keys lines)" by simp
  with assms c show ?thesis
    by (simp add: collect_plist_keys_def Let_def)
qed

lemma build_candidates_missing:
  assumes "\<exists>k\<in>required. k \<notin> set (manifest_keys lines)"
  shows "build_candidates iter scanned lines =
           Inl (RuntimeError
             (''Missing required InfoPlist usage description keys in project.pbxproj: ''
                @ repr_list (sorted_list_of_set (required - set (manifest_keys lines)))))"
proof -
  from assms have "set (manifest_keys lines) \<noteq> required" by blast
  then show ?thesis
    by (simp add: build_candidates_def collect_plist_keys_missing)
qed

lemma except_RuntimeError_cases:
  "(\<exists>msg. except_RuntimeError w e = Returned 1 [''error: '' @ msg] w)
   \<or> except_RuntimeError w e = Raised e w"
  by (cases e) (simp_all add: except_RuntimeError_def)

text \<open>A key name that no line of the manifest holds after \<open>INFOPLIST_KEY_\<close> is not assigned.\<close>

lemma rx_match_Lit:
  "rx_match (Lit p) s = (if startswith s p then [drop (length p) s] else [])"
proof (induction p arbitrary: s)
  case Nil
  show ?case by (simp add: startswith_def)
next
  case (Cons c p)
  show ?case
    by (cases s) (auto simp: Cons Chr_def startswith_def)
qed

lemma rx_match_Lit_mem:
  assumes "r \<in> set (rx_match (Lit p) s)"
  shows "s = p @ r"
proof -
  from assms have "take (length p) s = p" and "r = drop (length p) s"
    by (simp_all only: rx_match_Lit startswith_def split: if_splits) simp_all
  then show ?thesis by (metis append_take_drop_id)
qed

lemma PLIST_KEY_PATTERN_match_text:
  assumes "(k, v) \<in> set (PLIST_KEY_PATTERN_match s)"
  shows "startswith s (''INFOPLIST_KEY_'' @ k)"
proof -
  from assms obtain s1 s2 where
    m1: "s1 \<in> set (rx_match (Lit ''INFOPLIST_KEY_'') s)"
    and m2: "s2 \<in> set (rx_match (Lit k) s1)"
    unfolding PLIST_KEY_PATTERN_match_def
    by (auto simp del: Lit.simps rx_match.simps)
  have "s = ''INFOPLIST_KEY_'' @ s1" using m1 by (rule rx_match_Lit_mem)
  moreover have "s1 = k @ s2" using m2 by (rule rx_match_Lit_mem)
  ultimately have "s = (''INFOPLIST_KEY_'' @ k) @ s2"
    by (simp only: append_assoc)
  then show ?thesis
    unfolding startswith_def by (metis append_eq_conv_conj)
qed

lemma PLIST_KEY_PATTERN_search_text:
  "PLIST_KEY_PATTERN_search line = Some (k, v) \<Longrightarrow> py_contains (''INFOPLIST_KEY_'' @ k) line"
proof (induction line)
  case Nil
  then have "(k, v) \<in> set (PLIST_KEY_PATTERN_match [])"
    by (auto split: list.splits)
  from PLIST_KEY_PATTERN_match_text [OF this] show ?case
    by (simp add: startswith_def)
next
  case (Cons c cs)
  show ?case
  proof (cases "PLIST_KEY_PATTERN_match (c # cs)")
    case Nil
    with Cons show ?thesis by simp
  next
    case (Cons m ms)
    with Cons.prems have "(k, v) \<in> set (PLIST_KEY_PATTERN_match (c # cs))" by simp
    from PLIST_KEY_PATTERN_match_text [OF this] show ?thesis by simp
  qed
qed

lemma manifest_keys_text:
  assumes "k \<in> set (manifest_keys lines)"
  shows "\<exists>line\<in>set lines. py_contains (''INFOPLIST_KEY_'' @ k) line"
proof -
  from assms obtain line v where "line \<in> set lines" "PLIST_KEY_PATTERN_search line = Some (k, v)"
    by (auto simp: manifest_keys_def List.map_filter_def)
  then show ?thesis
    using PLIST_KEY_PATTERN_search_text by blast
qed

text \<open>
  C8, as the code has it. When the manifest lacks one of the two required keys, the run
  ends before any request is issued: \<open>main\<close> returns a non-zero exit code, or an
  exception leaves it, in the world it started in. When the targets given are valid,
  the artifact directory is made and the scan raises nothing, the exit code is 1 and
  the one line printed to \<open>stderr\<close> lists the required keys that the manifest lacks,
  in sorted order, and no other key. The targets are checked first: an invalid target
  gives the exit code 2 and a line that lists the invalid targets and names no key.
\<close>

theorem missing_manifest_key_aborts:
  assumes "prj_pbxproj prj = Inr lines"
    and "\<exists>k\<in>required. k \<notin> set (manifest_keys lines)"
  shows "((\<exists>code errs. main svc w iter prj arg dry_run api_key = Returned code errs w \<and> code \<noteq> 0)
          \<or> (\<exists>e. main svc w iter prj arg dry_run api_key = Raised e w))
       \<and> (set (parse_include_targets arg) \<subseteq> {''app'', ''widget''}
            \<and> prj_mkdir prj = None
            \<and> (\<exists>scanned. prj_scan prj (parse_include_targets arg) = Inr scanned) \<longrightarrow>
          main svc w iter prj arg dry_run api_key =
            Returned 1
              [''error: Missing required InfoPlist usage description keys in project.pbxproj: ''
                 @ repr_list (sorted_list_of_set (required - set (manifest_keys lines)))] w)
       \<and> (\<not> set (parse_include_targets arg) \<subseteq> {''app'', ''widget''} \<longrightarrow>
          main svc w iter prj arg dry_run api_key =
            Returned 2
              [''error: invalid targets in --include-targets: ''
                 @ repr_list (filter (\<lambda>token. token \<notin> {''app'', ''widget''})
                                (parse_include_targets arg))] w)"
proof -
  note c = build_candidates_missing [OF assms(2)]
  let ?invalid = "filter (\<lambda>token. token \<notin> {''app'', ''widget''}) (parse_include_targets arg)"
  have inv: "?invalid = [] \<longleftrightarrow> set (parse_include_targets arg) \<subseteq> {''app'', ''widget''}"
    by (auto simp: filter_empty_conv)
  show ?thesis
  proof (cases "?invalid = []")
    case False
    then show ?thesis
      using inv by (simp add: main_def Let_def)
  next
    case True
    note valid = True
    show ?thesis
    proof (cases "prj_mkdir prj")
      case (Some e)
      with valid inv show ?thesis by (simp add: main_def Let_def)
    next
      case None
      show ?thesis
      proof (cases "prj_scan prj (parse_include_targets arg)")
        case (Inl e)
        with valid inv None except_RuntimeError_cases [of w e] show ?thesis
          by (auto simp: main_def Let_def)
      next
        case (Inr scanned)
        with valid inv None assms(1) show ?thesis
          by (simp add: main_def Let_def c except_RuntimeError_def)
      qed
    qed
  qed
qed

theorem missing_manifest_key_aborts_witness:
  "prj_pbxproj (sample_project (take 1 sample_manifest)) = Inr (take 1 sample_manifest)
   \<and> (\<exists>k\<in>required. k \<notin> set (manifest_keys (take 1 sample_manifest)))
   \<and> set (parse_include_targets ''app,widget'') \<subseteq> {''app'', ''widget''}
   \<and> main echo_service ((), []) remdups (sample_project (take 1 sample_manifest))
        ''app,widget'' False (Some ''sk-test'')
     = Returned 1
         [''error: Missing required InfoPlist usage description keys in project.pbxproj: [''
            @ [squote] @ ''NSLocationWhenInUseUsageDescription'' @ [squote] @ '']'']
         ((), [])"
proof -
  let ?prj = "sample_project (take 1 sample_manifest)"
  have px: "prj_pbxproj ?prj = Inr (take 1 sample_manifest)"
    by (simp add: sample_project_def)
  have mk: "manifest_keys (take 1 sample_manifest)
              = [''NSLocationAlwaysAndWhenInUseUsageDescription'']"
    by code_simp
  have h: "\<exists>k\<in>required. k \<notin> set (manifest_keys (take 1 sample_manifest))"
    unfolding mk by (simp add: required_def)
  have p: "parse_include_targets ''app,widget'' = [''app'', ''widget'']"
    by code_simp
  have v: "set (parse_include_targets ''app,widget'') \<subseteq> {''app'', ''widget''}"
    unfolding p by simp
  have md: "prj_mkdir ?prj = None" by (simp add: sample_project_def)
  have sc: "\<exists>scanned. prj_scan ?prj (parse_include_targets ''app,widget'') = Inr scanned"
    by (simp add: sample_project_def)
  have ms: "sorted_list_of_set (required - set (manifest_keys (take 1 sample_manifest)))
              = [''NSLocationWhenInUseUsageDescription'']"
    unfolding mk by (simp add: required_def)
  have r: "repr_list [''NSLocationWhenInUseUsageDescription'']
             = ''['' @ [squote] @ ''NSLocationWhenInUseUsageDescription'' @ [squote] @ '']''"
    by code_simp
  note t = missing_manifest_key_aborts [OF px h, of echo_service "((), [])" remdups
         "''app,widget''" False "Some ''sk-test''"]
  from t have "set (parse_include_targets ''app,widget'') \<subseteq> {''app'', ''widget''}
            \<and> prj_mkdir ?prj = None
            \<and> (\<exists>scanned. prj_scan ?prj (parse_include_targets ''app,widget'') = Inr scanned) \<longrightarrow>
          main echo_service ((), []) remdups ?prj ''app,widget'' False (Some ''sk-test'') =
            Returned 1
              [''error: Missing required InfoPlist usage description keys in project.pbxproj: ''
                 @ repr_list (sorted_list_of_set
                     (required - set (manifest_keys (take 1 sample_manifest))))] ((), [])"
    by (elim conjE)
  with v md sc have "main echo_service ((), []) remdups ?prj ''app,widget'' False (Some ''sk-test'')
     = Returned 1
         [''error: Missing required InfoPlist usage description keys in project.pbxproj: ''
            @ repr_list [''NSLocationWhenInUseUsageDescription'']]
         ((), [])"
    unfolding ms by (elim impE) (intro conjI, assumption+)
  with px h v show ?thesis unfolding r by simp
qed

text \<open>
  A manifest without the when-in-use key and the target \<open>tv\<close>: the exit code is 2 and
  the error names the target, not the key.
\<close>

theorem missing_manifest_key_counterexample:
  "prj_pbxproj (sample_project (take 1 sample_manifest)) = Inr (take 1 sample_manifest)
   \<and> (\<exists>k\<in>required. k \<notin> set (manifest_keys (take 1 sample_manifest)))
   \<and> main echo_service ((), []) remdups (sample_project (take 1 sample_manifest))
        ''tv'' False (Some ''sk-test'')
     = Returned 2
         [''error: invalid targets in --include-targets: ['' @ [squote] @ ''tv'' @ [squote]
            @ '']'']
         ((), [])"
proof -
  have px: "prj_pbxproj (sample_project (take 1 sample_manifest)) = Inr (take 1 sample_manifest)"
    by (simp add: sample_project_def)
  have mk: "manifest_keys (take 1 sample_manifest)
              = [''NSLocationAlwaysAndWhenInUseUsageDescription'']"
    by code_simp
  have h: "\<exists>k\<in>required. k \<notin> set (manifest_keys (take 1 sample_manifest))"
    unfolding mk by (simp add: required_def)
  have p: "parse_include_targets ''tv'' = [''tv'']"
    by code_simp
  have r: "repr_list [''tv''] = ''['' @ [squote] @ ''tv'' @ [squote] @ '']''"
    by code_simp
  have "main echo_service ((), []) remdups (sample_project (take 1 sample_manifest))
        ''tv'' False (Some ''sk-test'')
     = Returned 2 [''error: invalid targets in --include-targets: '' @ repr_list [''tv'']] ((), [])"
    by (simp add: main_def Let_def p)
  with px h show ?thesis unfolding r by simp
qed

end
